theory Spec2Isabelle
  imports Complex_Main "HOL-Library.Multiset"
begin

section \<open>CrazyCast: the forecast baseline of benchmark/baselines/crazycast.py\<close>

text \<open>
  The development embeds \<^verbatim>\<open>CrazyCast.__call__\<close>, \<^verbatim>\<open>CrazyCast.make_prompt\<close> (its
  serialisation of the history), \<^verbatim>\<open>CrazyCast.get_client\<close> (its choice of a client)
  and \<^verbatim>\<open>CrazyCast.cache_name\<close>.

  Python values are modelled as follows: \<^verbatim>\<open>int\<close> is \<^typ>\<open>int\<close>, \<^verbatim>\<open>str\<close> is
  \<^typ>\<open>string\<close>, an optional integer (\<^verbatim>\<open>None\<close> or a number) is \<^typ>\<open>int option\<close>.
  A Python \<^verbatim>\<open>float\<close> produced by \<^verbatim>\<open>float()\<close> or by float arithmetic is a value of a
  type variable \<open>'f\<close>: the operations on it (\<^verbatim>\<open>float()\<close>, \<^verbatim>\<open>/\<close>, \<^verbatim>\<open>*\<close>, \<^verbatim>\<open>+\<close>,
  \<^verbatim>\<open>round\<close>, \<^verbatim>\<open>str\<close>) are parameters, so that nothing is assumed about IEEE arithmetic.
  Every exception the code can raise is a value of the type \<open>error\<close>.
\<close>

subsection \<open>Exceptions\<close>

datatype error =
    AssertionError
  | ZeroDivisionError
  | KeyError
  | IndexError
  | ValueError
  | RuntimeError int int
  | NotImplementedError
  | BackendError

text \<open>
  \<open>RuntimeError n k\<close> is the exception of line 413, whose message names the requested
  number of samples \<open>n\<close> and the number of valid forecasts \<open>k\<close> that were collected.
  \<open>NotImplementedError\<close> is raised by \<^verbatim>\<open>get_client\<close> for a model it does not know.
  \<open>BackendError\<close> stands for any exception raised by the completion client.
\<close>

subsection \<open>String operations of Python\<close>

text \<open>\<^verbatim>\<open>s.replace(c, "")\<close> for a one-character \<open>c\<close>: every occurrence is removed.\<close>

definition str_remove :: "char \<Rightarrow> string \<Rightarrow> string" where
  "str_remove c s = filter (\<lambda>x. x \<noteq> c) s"

text \<open>
  \<^verbatim>\<open>s.split(sep)\<close> for a one-character separator: the pieces between the separators,
  of which there is always at least one (\<^verbatim>\<open>"".split(",") == [""]\<close>).
\<close>

fun split_on :: "char \<Rightarrow> string \<Rightarrow> string list" where
  "split_on sep [] = [[]]"
| "split_on sep (c # cs) =
     (if c = sep then [] # split_on sep cs
      else (case split_on sep cs of
              [] \<Rightarrow> [[c]]
            | p # ps \<Rightarrow> (c # p) # ps))"

text \<open>\<^verbatim>\<open>sep.join(xs)\<close>.\<close>

fun py_join :: "string \<Rightarrow> string list \<Rightarrow> string" where
  "py_join sep [] = []"
| "py_join sep [x] = x"
| "py_join sep (x # y # ys) = x @ sep @ py_join sep (y # ys)"

text \<open>\<^verbatim>\<open>xs[:n]\<close>: the first \<open>n\<close> elements, or all but the last \<open>-n\<close> when \<open>n\<close> is negative.\<close>

definition slice_upto :: "int \<Rightarrow> 'a list \<Rightarrow> 'a list" where
  "slice_upto n xs =
     (if 0 \<le> n then take (nat n) xs else take (length xs - nat (- n)) xs)"

subsection \<open>Parsing one completion (lines 367 to 390)\<close>

text \<open>
  The body of the \<^verbatim>\<open>try\<close> block. Two functions it calls are not part of the
  sources and are parameters:
  \<^item> \<open>extract\<close> is \<^verbatim>\<open>extract_html_tags(content, ["forecast"])\<close> read at the key
    \<^verbatim>\<open>"forecast"\<close>: the list of the blocks found; the empty list stands for the
    exception that \<^verbatim>\<open>["forecast"][0]\<close> raises when there is none;
  \<^item> \<open>pyfloat\<close> is \<^verbatim>\<open>float()\<close>: \<open>None\<close> stands for its \<^verbatim>\<open>ValueError\<close>.
\<close>

text \<open>The key of a line: \<^verbatim>\<open>x.split(",")[0].replace("'", "").replace('"', "")\<close>.\<close>

definition line_key :: "string \<Rightarrow> string" where
  "line_key x =
     (case split_on CHR '','' x of
        [] \<Rightarrow> []
      | k # _ \<Rightarrow> str_remove (CHR 0x22) (str_remove (CHR 0x27) k))"

text \<open>
  One item of the dictionary comprehension: the key, then \<^verbatim>\<open>float(x.split(",")[1])\<close>.
  A line without a comma has no index 1; fields after the second are never read.
\<close>

definition parse_line :: "(string \<Rightarrow> 'f option) \<Rightarrow> string \<Rightarrow> error + (string \<times> 'f)" where
  "parse_line pyfloat x =
     (case split_on CHR '','' x of
        [] \<Rightarrow> Inl IndexError
      | [k] \<Rightarrow> Inl IndexError
      | k # v # _ \<Rightarrow>
          (case pyfloat v of
             None \<Rightarrow> Inl ValueError
           | Some y \<Rightarrow> Inr (line_key x, y)))"

text \<open>
  The dictionary comprehension over the lines: a later pair with the same key
  replaces an earlier one; the first line that fails aborts the whole parse.
\<close>

fun build_dict ::
  "(string \<Rightarrow> 'f option) \<Rightarrow> string list \<Rightarrow> (string \<rightharpoonup> 'f) \<Rightarrow> error + (string \<rightharpoonup> 'f)" where
  "build_dict pyfloat [] m = Inr m"
| "build_dict pyfloat (x # xs) m =
     (case parse_line pyfloat x of
        Inl e \<Rightarrow> Inl e
      | Inr (k, y) \<Rightarrow> build_dict pyfloat xs (m(k \<mapsto> y)))"

text \<open>\<^verbatim>\<open>[forecast[t] for t in ...]\<close>: a missing key raises \<^verbatim>\<open>KeyError\<close>.\<close>

fun lookup_all :: "(string \<rightharpoonup> 'f) \<Rightarrow> string list \<Rightarrow> error + 'f list" where
  "lookup_all m [] = Inr []"
| "lookup_all m (t # ts) =
     (case m t of
        None \<Rightarrow> Inl KeyError
      | Some y \<Rightarrow>
          (case lookup_all m ts of
             Inl e \<Rightarrow> Inl e
           | Inr ys \<Rightarrow> Inr (y # ys)))"

text \<open>The lines of a block: parentheses removed, split at the newlines.\<close>

definition block_lines :: "string \<Rightarrow> string list" where
  "block_lines forecast =
     split_on (CHR 0x0A) (str_remove CHR '')'' (str_remove CHR ''('' forecast))"

text \<open>
  The whole \<^verbatim>\<open>try\<close> block for one choice; \<open>targets\<close> are the strings
  \<^verbatim>\<open>task_instance.future_time.index.strftime("%Y-%m-%d %H:%M:%S")\<close>.
\<close>

definition parse_choice ::
  "(string \<Rightarrow> string list) \<Rightarrow> (string \<Rightarrow> 'f option) \<Rightarrow> string list \<Rightarrow> string
     \<Rightarrow> error + 'f list" where
  "parse_choice extract pyfloat targets content =
     (case extract content of
        [] \<Rightarrow> Inl KeyError
      | forecast # _ \<Rightarrow>
          (case build_dict pyfloat (block_lines forecast) Map.empty of
             Inl e \<Rightarrow> Inl e
           | Inr d \<Rightarrow> lookup_all d targets))"

subsection \<open>The engine, the task instance and the completion client\<close>

text \<open>
  The attributes of a \<^verbatim>\<open>CrazyCast\<close> object that \<^verbatim>\<open>__call__\<close> and
  \<^verbatim>\<open>cache_name\<close> read. \<open>token_cost\<close> is the dictionary with the keys
  \<^verbatim>\<open>"input"\<close> and \<^verbatim>\<open>"output"\<close>, as a pair. \<open>total_cost\<close> is the only attribute
  that \<^verbatim>\<open>__call__\<close> assigns.
\<close>

record 'f crazycast =
  model :: string
  use_context :: bool
  fail_on_invalid :: bool
  n_retries :: int
  batch_size :: "int option"
  batch_size_on_retry :: int
  token_cost :: "('f \<times> 'f) option"
  total_cost :: 'f
  temperature :: 'f

text \<open>
  A value of the history is a float: a finite one, given by the real number it
  denotes, an infinity, or a NaN. \<open>float_lt_int y n\<close> is Python's \<^verbatim>\<open>y < n\<close> for a
  float and an integer: it compares the exact values, and it is false for a NaN.
\<close>

datatype py_float = Finite real | PosInf | NegInf | NaN

definition float_lt_int :: "py_float \<Rightarrow> int \<Rightarrow> bool" where
  "float_lt_int y n =
     (case y of
        Finite r \<Rightarrow> r < real_of_int n
      | PosInf \<Rightarrow> False
      | NegInf \<Rightarrow> True
      | NaN \<Rightarrow> False)"

text \<open>The magnitude of a float, where it is a number.\<close>

definition magnitude :: "py_float \<Rightarrow> real option" where
  "magnitude y = (case y of Finite r \<Rightarrow> Some \<bar>r\<bar> | _ \<Rightarrow> None)"

text \<open>
  What the engine reads of a task instance: the history as pairs of a formatted
  timestamp and a value, the formatted target timestamps, and the optional cap.
\<close>

record task_instance =
  past_time :: "(string \<times> py_float) list"
  future_time :: "string list"
  max_crazycast_batch_size :: "int option"

text \<open>The response of the client: the contents of its choices and its usage.\<close>

record response =
  choices :: "string list"
  prompt_tokens :: int
  completion_tokens :: int

text \<open>
  Code that is not in the sources, taken as parameters. The client is called with
  the fixed model name and messages and with \<open>n\<close>; it has a state of its own
  (\<open>'s\<close>), may answer with any number of choices, and \<open>None\<close> stands for an
  exception it raises. \<open>int_truediv\<close>, \<open>fl_mul\<close>, \<open>fl_add\<close> and \<open>fl_round\<close> are
  Python's \<^verbatim>\<open>/\<close> on integers, \<^verbatim>\<open>*\<close>, \<^verbatim>\<open>+\<close> and \<^verbatim>\<open>round(x, n)\<close> on floats.
\<close>

record ('f, 's) externals =
  extract_html_tags :: "string \<Rightarrow> string list"
  pyfloat :: "string \<Rightarrow> 'f option"
  client :: "'s \<Rightarrow> int \<Rightarrow> response option \<times> 's"
  int_truediv :: "int \<Rightarrow> int \<Rightarrow> 'f"
  fl_mul :: "'f \<Rightarrow> 'f \<Rightarrow> 'f"
  fl_add :: "'f \<Rightarrow> 'f \<Rightarrow> 'f"
  fl_round :: "'f \<Rightarrow> int \<Rightarrow> 'f"

subsection \<open>Configuration checks and the first batch (lines 317 to 350)\<close>

text \<open>\<^verbatim>\<open>n_samples if not self.batch_size else self.batch_size\<close>: 0 is falsy, as \<^verbatim>\<open>None\<close> is.\<close>

definition default_batch_size :: "'f crazycast \<Rightarrow> int \<Rightarrow> int" where
  "default_batch_size self n_samples =
     (case batch_size self of
        None \<Rightarrow> n_samples
      | Some b \<Rightarrow> if b = 0 then n_samples else b)"

text \<open>
  The assertion of line 319: with a batch size that is set (\<^verbatim>\<open>if self.batch_size\<close>,
  which 0 fails as \<^verbatim>\<open>None\<close> does), the retries cover the samples.
\<close>

definition enough_iterations :: "'f crazycast \<Rightarrow> int \<Rightarrow> bool" where
  "enough_iterations self n_samples \<longleftrightarrow>
     (case batch_size self of
        None \<Rightarrow> True
      | Some b \<Rightarrow> b = 0 \<or> n_samples \<le> b * n_retries self)"

text \<open>The assertion of line 322.\<close>

definition retry_batch_fits :: "'f crazycast \<Rightarrow> int \<Rightarrow> bool" where
  "retry_batch_fits self n_samples \<longleftrightarrow>
     batch_size_on_retry self \<le> default_batch_size self n_samples"

text \<open>Both assertions hold.\<close>

definition asserts_hold :: "'f crazycast \<Rightarrow> int \<Rightarrow> bool" where
  "asserts_hold self n_samples \<longleftrightarrow>
     enough_iterations self n_samples \<and> retry_batch_fits self n_samples"

text \<open>
  The first batch size and the local \<^verbatim>\<open>n_retries\<close>. Python's \<^verbatim>\<open>//\<close> raises on a
  zero divisor and rounds towards minus infinity otherwise, as \<open>div\<close> on \<^typ>\<open>int\<close> does.
\<close>

definition first_batch :: "'f crazycast \<Rightarrow> task_instance \<Rightarrow> int \<Rightarrow> error + (int \<times> int)" where
  "first_batch self task n_samples =
     (let d = default_batch_size self n_samples in
      case max_crazycast_batch_size task of
        Some max_batch_size \<Rightarrow>
          (let b = min d max_batch_size in
           if b = 0 then Inl ZeroDivisionError
           else Inr (b, n_retries self + d div b))
      | None \<Rightarrow> Inr (d, n_retries self))"

subsection \<open>The rejection-sampling loop (lines 354 to 409)\<close>

text \<open>
  The local variables of the loop. \<open>loc_n_retries\<close> and \<open>loc_batch_size\<close> are the
  locals \<^verbatim>\<open>n_retries\<close> and \<^verbatim>\<open>batch_size\<close> (the attributes of the same names are
  fields of the engine). Two fields are not variables of the program but a record
  of its calls to the client: \<open>requests\<close> holds, for each call, the \<open>n\<close> that was
  asked for and the number of valid forecasts held at that moment; \<open>responses\<close>
  holds the responses in the order they came.
\<close>

record ('f, 's) loop_state =
  valid_forecasts :: "'f list list"
  loc_n_retries :: int
  loc_batch_size :: int
  total_tokens_input :: int
  total_tokens_output :: int
  llm_outputs :: "string list"
  client_state :: 's
  requests :: "(int \<times> nat) list"
  responses :: "response list"

text \<open>
  One pass of \<^verbatim>\<open>for choice in chat_completion.choices\<close>: the content is kept in
  \<^verbatim>\<open>llm_outputs\<close>, and the forecast is appended when the \<^verbatim>\<open>try\<close> block raises nothing.
\<close>

definition for_choice ::
  "('f, 's) externals \<Rightarrow> task_instance \<Rightarrow> string \<Rightarrow> 'f list list \<times> string list
     \<Rightarrow> 'f list list \<times> string list" where
  "for_choice ext task content acc =
     (case parse_choice (extract_html_tags ext) (pyfloat ext) (future_time task) content of
        Inl e \<Rightarrow> (fst acc, snd acc @ [content])
      | Inr forecast \<Rightarrow> (fst acc @ [forecast], snd acc @ [content]))"

text \<open>The body of the \<^verbatim>\<open>while\<close> loop once the client has answered.\<close>

definition loop_round ::
  "('f, 's) externals \<Rightarrow> 'f crazycast \<Rightarrow> task_instance \<Rightarrow> int \<Rightarrow> ('f, 's) loop_state
     \<Rightarrow> response \<Rightarrow> ('f, 's) loop_state" where
  "loop_round ext self task n_samples st chat_completion =
     (let (forecasts, outputs) =
            fold (for_choice ext task) (choices chat_completion)
              (valid_forecasts st, llm_outputs st);
          remaining_samples = n_samples - int (length forecasts)
      in st\<lparr>total_tokens_input := total_tokens_input st + prompt_tokens chat_completion,
            total_tokens_output := total_tokens_output st + completion_tokens chat_completion,
            llm_outputs := outputs,
            loc_n_retries := loc_n_retries st - 1,
            loc_batch_size :=
              (case max_crazycast_batch_size task of
                 Some max_batch_size \<Rightarrow>
                   min (max remaining_samples (batch_size_on_retry self)) max_batch_size
               | None \<Rightarrow> batch_size_on_retry self),
            valid_forecasts := slice_upto n_samples forecasts,
            responses := responses st @ [chat_completion]\<rparr>)"

function while_loop ::
  "('f, 's) externals \<Rightarrow> 'f crazycast \<Rightarrow> task_instance \<Rightarrow> int \<Rightarrow> ('f, 's) loop_state
     \<Rightarrow> error option \<times> ('f, 's) loop_state" where
  "while_loop ext self task n_samples st =
     (if int (length (valid_forecasts st)) < n_samples \<and> 0 < loc_n_retries st then
        (let asked = st\<lparr>requests :=
                        requests st @ [(loc_batch_size st, length (valid_forecasts st))]\<rparr>
         in case client ext (client_state st) (loc_batch_size st) of
              (None, cs) \<Rightarrow> (Some BackendError, asked\<lparr>client_state := cs\<rparr>)
            | (Some chat_completion, cs) \<Rightarrow>
                while_loop ext self task n_samples
                  (loop_round ext self task n_samples (asked\<lparr>client_state := cs\<rparr>)
                     chat_completion))
      else (None, st))"
  by pat_completeness auto
termination
  by (relation "measure (\<lambda>(ext, self, task, n_samples, st). nat (loc_n_retries st))")
     (auto simp: loop_round_def Let_def split: prod.splits)

declare while_loop.simps [simp del]

subsection \<open>After the loop (lines 411 to 442)\<close>

text \<open>
  \<^verbatim>\<open>np.array(valid_forecasts)[:, :, None]\<close>. Every forecast has one value for each
  target timestamp, so the array of a non-empty list has two dimensions and the
  index adds a third of size 1. The array of the empty list has one dimension, of
  size 0, and indexing it with two slices raises \<^verbatim>\<open>IndexError\<close>.
\<close>

definition stack_samples :: "'f list list \<Rightarrow> error + 'f list list list" where
  "stack_samples forecasts =
     (if forecasts = [] then Inl IndexError
      else Inr (map (map (\<lambda>v. [v])) forecasts))"

text \<open>\<^verbatim>\<open>extra_info\<close>, without its two wall-clock times.\<close>

record 'f extra_info =
  total_input_tokens :: int
  total_output_tokens :: int
  info_llm_outputs :: "string list"
  input_token_cost :: "'f option"
  output_token_cost :: "'f option"
  total_token_cost :: "'f option"

text \<open>
  What a call leaves behind: the value it returns or the exception it raises, the
  engine (with its \<open>total_cost\<close>), the state of the client, and the record of the
  calls to the client.
\<close>

record ('f, 's) outcome =
  returned :: "error + ('f list list list \<times> 'f extra_info)"
  engine :: "'f crazycast"
  backend :: 's
  sent :: "(int \<times> nat) list"
  received :: "response list"

text \<open>\<^verbatim>\<open>round(input_cost + output_cost, 2)\<close> from the token counts of the whole call.\<close>

definition current_cost :: "('f, 's) externals \<Rightarrow> 'f \<times> 'f \<Rightarrow> int \<Rightarrow> int \<Rightarrow> 'f" where
  "current_cost ext prices tokens_in tokens_out =
     (let input_cost = fl_mul ext (int_truediv ext tokens_in 1000) (fst prices);
          output_cost = fl_mul ext (int_truediv ext tokens_out 1000) (snd prices)
      in fl_round ext (fl_add ext input_cost output_cost) 2)"

definition finish ::
  "('f, 's) externals \<Rightarrow> 'f crazycast \<Rightarrow> int \<Rightarrow> ('f, 's) loop_state \<Rightarrow> ('f, 's) outcome" where
  "finish ext self n_samples st =
     (if fail_on_invalid self \<and> int (length (valid_forecasts st)) < n_samples then
        \<lparr>returned = Inl (RuntimeError n_samples (int (length (valid_forecasts st)))),
         engine = self, backend = client_state st,
         sent = requests st, received = responses st\<rparr>
      else
        (let info = \<lparr>total_input_tokens = total_tokens_input st,
                     total_output_tokens = total_tokens_output st,
                     info_llm_outputs = llm_outputs st,
                     input_token_cost = None, output_token_cost = None,
                     total_token_cost = None\<rparr>;
             (self', info') =
               (case token_cost self of
                  None \<Rightarrow> (self, info)
                | Some prices \<Rightarrow>
                    (let cost = current_cost ext prices
                                  (total_tokens_input st) (total_tokens_output st)
                     in (self\<lparr>total_cost := fl_add ext (total_cost self) cost\<rparr>,
                         info\<lparr>input_token_cost := Some (fst prices),
                              output_token_cost := Some (snd prices),
                              total_token_cost := Some cost\<rparr>)))
         in \<lparr>returned =
               (case stack_samples (valid_forecasts st) of
                  Inl e \<Rightarrow> Inl e
                | Inr samples \<Rightarrow> Inr (samples, info')),
             engine = self', backend = client_state st,
             sent = requests st, received = responses st\<rparr>))"

subsection \<open>\<^verbatim>\<open>CrazyCast.__call__\<close>\<close>

text \<open>The locals when the loop is entered, for a first batch \<open>b\<close> and \<open>r\<close> retries.\<close>

definition initial_state :: "int \<Rightarrow> int \<Rightarrow> 's \<Rightarrow> ('f, 's) loop_state" where
  "initial_state b r cs =
     \<lparr>valid_forecasts = [], loc_n_retries = r, loc_batch_size = b,
      total_tokens_input = 0, total_tokens_output = 0,
      llm_outputs = [], client_state = cs,
      requests = [], responses = []\<rparr>"

text \<open>
  The assertions, the first batch, the loop, and what follows it. The prompt is
  built once before the loop and sent unchanged with every request, so it is part
  of the client here.
\<close>

definition call ::
  "('f, 's) externals \<Rightarrow> 'f crazycast \<Rightarrow> task_instance \<Rightarrow> int \<Rightarrow> 's \<Rightarrow> ('f, 's) outcome" where
  "call ext self task n_samples cs =
     (if \<not> asserts_hold self n_samples then
        \<lparr>returned = Inl AssertionError, engine = self, backend = cs,
         sent = [], received = []\<rparr>
      else
        (case first_batch self task n_samples of
           Inl e \<Rightarrow>
             \<lparr>returned = Inl e, engine = self, backend = cs, sent = [], received = []\<rparr>
         | Inr (b, r) \<Rightarrow>
             (case while_loop ext self task n_samples (initial_state b r cs) of
                (Some e, st) \<Rightarrow>
                  \<lparr>returned = Inl e, engine = self, backend = client_state st,
                   sent = requests st, received = responses st\<rparr>
              | (None, st) \<Rightarrow> finish ext self n_samples st)))"

subsection \<open>The history of the prompt (lines 240 to 248)\<close>

text \<open>
  A format specification of an f-string: \<open>General d\<close> is \<^verbatim>\<open>.{d}g\<close> and \<open>Fixed d\<close> is
  \<^verbatim>\<open>.{d}f\<close>. The text that Python's \<^verbatim>\<open>format\<close> produces for a float under a
  specification is a parameter (\<open>render\<close>).
\<close>

datatype format_spec = General nat | Fixed nat

text \<open>The specification that the conditional expression of line 246 selects.\<close>

definition history_spec :: "nat \<Rightarrow> py_float \<Rightarrow> format_spec" where
  "history_spec max_digits y =
     (if float_lt_int y (10 ^ max_digits) then General max_digits else Fixed 0)"

definition history_entry ::
  "(format_spec \<Rightarrow> py_float \<Rightarrow> string) \<Rightarrow> nat \<Rightarrow> string \<times> py_float \<Rightarrow> string" where
  "history_entry render max_digits p =
     ''('' @ fst p @ '', '' @ render (history_spec max_digits (snd p)) (snd p) @ '')''"

definition history ::
  "(format_spec \<Rightarrow> py_float \<Rightarrow> string) \<Rightarrow> nat \<Rightarrow> task_instance \<Rightarrow> string" where
  "history render max_digits task =
     py_join [CHR 0x0A] (map (history_entry render max_digits) (past_time task))"

subsection \<open>\<^verbatim>\<open>CrazyCast.cache_name\<close> (lines 444 to 456)\<close>

text \<open>\<^verbatim>\<open>str\<close> of an integer and of a truth value.\<close>

fun str_nat :: "nat \<Rightarrow> string" where
  "str_nat n =
     (if n < 10 then [char_of (48 + n)]
      else str_nat (n div 10) @ [char_of (48 + n mod 10)])"

declare str_nat.simps [simp del]

definition str_int :: "int \<Rightarrow> string" where
  "str_int i = (if i < 0 then CHR ''-'' # str_nat (nat (- i)) else str_nat (nat i))"

definition str_bool :: "bool \<Rightarrow> string" where
  "str_bool b = (if b then ''True'' else ''False'')"

text \<open>\<^verbatim>\<open>s.startswith("gpt")\<close>.\<close>

definition startswith_gpt :: "string \<Rightarrow> bool" where
  "startswith_gpt s \<longleftrightarrow> take 3 s = ''gpt''"

text \<open>
  The pairs \<^verbatim>\<open>(k, getattr(self, k))\<close> for \<^verbatim>\<open>k\<close> in \<^verbatim>\<open>args_to_include\<close>, each value
  under \<^verbatim>\<open>str\<close>; \<open>str_float\<close> is \<^verbatim>\<open>str\<close> on floats, a parameter.
\<close>

definition args_to_include :: "('f \<Rightarrow> string) \<Rightarrow> 'f crazycast \<Rightarrow> (string \<times> string) list" where
  "args_to_include str_float self =
     [(''model'', model self),
      (''use_context'', str_bool (use_context self)),
      (''fail_on_invalid'', str_bool (fail_on_invalid self)),
      (''n_retries'', str_int (n_retries self))] @
     (if \<not> startswith_gpt (model self)
      then [(''temperature'', str_float (temperature self))] else [])"

definition cache_name :: "('f \<Rightarrow> string) \<Rightarrow> 'f crazycast \<Rightarrow> string" where
  "cache_name str_float self =
     ''CrazyCast_'' @
     py_join ''_'' (map (\<lambda>(k, v). k @ ''='' @ v) (args_to_include str_float self))"

subsection \<open>\<^verbatim>\<open>CrazyCast.get_client\<close> (lines 192 to 227)\<close>

text \<open>
  The client that \<^verbatim>\<open>get_client\<close> selects, by its kind. \<^verbatim>\<open>OPENAI_USE_AZURE\<close> and the
  keys of \<^verbatim>\<open>LLM_MAP\<close> are not in the sources and are parameters.
\<close>

datatype client_kind = AzureOpenAI | OpenAI | Llama405bToolkit | HuggingFace

definition get_client :: "bool \<Rightarrow> string list \<Rightarrow> string \<Rightarrow> error + client_kind" where
  "get_client openai_use_azure llm_map_keys model_name =
     (if startswith_gpt model_name then
        Inr (if openai_use_azure then AzureOpenAI else OpenAI)
      else if model_name = ''llama-3.1-405b-instruct'' then Inr Llama405bToolkit
      else if model_name \<in> set llm_map_keys then Inr HuggingFace
      else Inl NotImplementedError)"

text \<open>
  Which clients send the request to a service that hosts the model. The OpenAI and
  Azure clients do; \<^verbatim>\<open>llama_3_1_405b_instruct_client\<close> posts it to an endpoint and
  its docstring speaks of the model "hosted on Toolkit";
  \<^verbatim>\<open>huggingface_model_client\<close> alone generates with the model that the engine has
  loaded itself.
\<close>

definition hosted :: "client_kind \<Rightarrow> bool" where
  "hosted k \<longleftrightarrow> k \<noteq> HuggingFace"

subsection \<open>Notions used to state the properties of the parser\<close>

text \<open>
  The value that a line contributes: that of its second comma-separated field,
  when the line has one and \<^verbatim>\<open>float()\<close> accepts it.
\<close>

definition line_value :: "(string \<Rightarrow> 'f option) \<Rightarrow> string \<Rightarrow> 'f option" where
  "line_value float_of x =
     (case split_on CHR '','' x of
        k # v # _ \<Rightarrow> float_of v
      | _ \<Rightarrow> None)"

text \<open>The pairs of key and value that the lines of a block denote, in their order.\<close>

definition line_pairs :: "(string \<Rightarrow> 'f option) \<Rightarrow> string list \<Rightarrow> (string \<times> 'f) list" where
  "line_pairs pf xs = map (\<lambda>x. (line_key x, the (line_value pf x))) xs"

text \<open>The token counters agree with the responses received so far.\<close>

definition tokens_counted :: "('f, 's) loop_state \<Rightarrow> bool" where
  "tokens_counted st \<longleftrightarrow>
     total_tokens_input st = sum_list (map prompt_tokens (responses st)) \<and>
     total_tokens_output st = sum_list (map completion_tokens (responses st))"

text \<open>The number that a string of decimal digits denotes.\<close>

definition nat_of_digits :: "string \<Rightarrow> nat" where
  "nat_of_digits s = foldl (\<lambda>a c. 10 * a + (of_char c - 48)) 0 s"

text \<open>The cache key after the model name and the underscore that follows it.\<close>

definition key_tail :: "('f \<Rightarrow> string) \<Rightarrow> 'f crazycast \<Rightarrow> string" where
  "key_tail sf a =
     ''use_context='' @ str_bool (use_context a) @
     ''_fail_on_invalid='' @ str_bool (fail_on_invalid a) @
     ''_n_retries='' @ str_int (n_retries a) @
     (if startswith_gpt (model a) then [] else ''_temperature='' @ sf (temperature a))"

subsection \<open>Instances of the parameters, for running the definitions\<close>

text \<open>
  Modelled from the spec: \<^verbatim>\<open>extract_html_tags\<close> of \<^verbatim>\<open>baselines/utils.py\<close> is missing
  from the sources. The spec says that the parser "extracts a delimited forecast
  block from free text", and the prompt asks for the forecast "in between
  <forecast> and </forecast> tags", each pair on a line of its own. The instance
  returns the text between the first opening tag and the next closing tag, without
  the blanks around it, and no block when either tag is missing. The theorems
  below hold for every extraction function; this one only serves to evaluate them.
\<close>

fun find_sub :: "string \<Rightarrow> string \<Rightarrow> (string \<times> string) option" where
  "find_sub pat [] = (if pat = [] then Some ([], []) else None)"
| "find_sub pat (c # cs) =
     (if take (length pat) (c # cs) = pat then Some ([], drop (length pat) (c # cs))
      else map_option (\<lambda>(before, after). (c # before, after)) (find_sub pat cs))"

definition is_blank :: "char \<Rightarrow> bool" where
  "is_blank c \<longleftrightarrow> c = CHR '' '' \<or> c = CHR 0x0A \<or> c = CHR 0x09 \<or> c = CHR 0x0D"

definition strip :: "string \<Rightarrow> string" where
  "strip s = rev (dropWhile is_blank (rev (dropWhile is_blank s)))"

definition first_forecast_block :: "string \<Rightarrow> string list" where
  "first_forecast_block text =
     (case find_sub ''<forecast>'' text of
        None \<Rightarrow> []
      | Some (_, rest) \<Rightarrow>
          (case find_sub ''</forecast>'' rest of
             None \<Rightarrow> []
           | Some (body, _) \<Rightarrow> [strip body]))"

text \<open>
  An instance of \<^verbatim>\<open>float()\<close> on the strings of decimal digits with blanks around
  them, which \<^verbatim>\<open>float()\<close> accepts; every other string is refused here. Floats are
  the real numbers they denote.
\<close>

definition is_digit :: "char \<Rightarrow> bool" where
  "is_digit c \<longleftrightarrow> (48::nat) \<le> of_char c \<and> of_char c \<le> (57::nat)"

definition digits_float :: "string \<Rightarrow> real option" where
  "digits_float s =
     (let t = strip s in
      if t \<noteq> [] \<and> list_all is_digit t
      then Some (of_nat (foldl (\<lambda>a c. 10 * a + (of_char c - 48)) (0::nat) t))
      else None)"

text \<open>
  A client that plays a script: each call answers with the next response of the
  list, whatever \<open>n\<close> is, and raises once the script is over.
\<close>

definition scripted_client :: "response list \<Rightarrow> int \<Rightarrow> response option \<times> response list" where
  "scripted_client script n =
     (case script of
        [] \<Rightarrow> (None, [])
      | r # rest \<Rightarrow> (Some r, rest))"

text \<open>
  The parameters with exact arithmetic on the reals in the place of floats. Its
  \<open>fl_round\<close> rounds the exact value to the nearest multiple of a power of ten,
  halves upwards; Python rounds the binary float, halves to even. The two agree
  on the inputs it is used on below.
\<close>

definition exact_externals :: "(real, response list) externals" where
  "exact_externals =
     \<lparr>extract_html_tags = first_forecast_block,
      pyfloat = digits_float,
      client = scripted_client,
      int_truediv = (\<lambda>a b. real_of_int a / real_of_int b),
      fl_mul = (\<lambda>x y. x * y),
      fl_add = (\<lambda>x y. x + y),
      fl_round = (\<lambda>x n. real_of_int (round (x * 10 ^ nat n)) / 10 ^ nat n)\<rparr>"

subsection \<open>Concrete inputs\<close>

text \<open>
  An engine, a task with one target timestamp, a completion that the parser accepts
  and one that it rejects, and scripts for the client.
\<close>

definition good_choice :: string where
  "good_choice = ''<forecast>(2024-01-01 00:00:00, 5)</forecast>''"

definition bad_choice :: string where
  "bad_choice = ''I cannot forecast this.''"

definition example_engine :: "real crazycast" where
  "example_engine =
     \<lparr>model = ''gpt-4o'', use_context = True, fail_on_invalid = True, n_retries = 2,
      batch_size = None, batch_size_on_retry = 1, token_cost = Some (5 / 2, 10),
      total_cost = 0, temperature = 1\<rparr>"

definition example_task :: task_instance where
  "example_task =
     \<lparr>past_time = [(''2023-12-31 00:00:00'', Finite 4)],
      future_time = [''2024-01-01 00:00:00''],
      max_crazycast_batch_size = None\<rparr>"

definition example_script :: "response list" where
  "example_script =
     [\<lparr>choices = [bad_choice], prompt_tokens = 100, completion_tokens = 20\<rparr>,
      \<lparr>choices = [good_choice], prompt_tokens = 100, completion_tokens = 30\<rparr>]"

definition rejected_script :: "response list" where
  "rejected_script =
     [\<lparr>choices = [bad_choice], prompt_tokens = 100, completion_tokens = 20\<rparr>,
      \<lparr>choices = [bad_choice], prompt_tokens = 100, completion_tokens = 30\<rparr>]"

definition capped_task :: task_instance where
  "capped_task = example_task\<lparr>max_crazycast_batch_size := Some 2\<rparr>"

definition capped_script :: "response list" where
  "capped_script =
     [\<lparr>choices = [good_choice, bad_choice], prompt_tokens = 100, completion_tokens = 40\<rparr>,
      \<lparr>choices = [good_choice], prompt_tokens = 100, completion_tokens = 20\<rparr>,
      \<lparr>choices = [good_choice], prompt_tokens = 100, completion_tokens = 20\<rparr>]"

text \<open>
  An engine for a model that is not a \<^verbatim>\<open>gpt\<close> model. Its temperature is a float
  with a whole value, given by that value; \<open>str_whole\<close> is \<^verbatim>\<open>str\<close> on such floats
  (\<^verbatim>\<open>str(1.0) == "1.0"\<close>).
\<close>

definition llama_engine :: "int crazycast" where
  "llama_engine =
     \<lparr>model = ''llama-3.1-405b-instruct'', use_context = True, fail_on_invalid = True,
      n_retries = 3, batch_size = None, batch_size_on_retry = 5, token_cost = None,
      total_cost = 0, temperature = 1\<rparr>"

definition str_whole :: "int \<Rightarrow> string" where
  "str_whole i = str_int i @ ''.0''"

text \<open>
  A history with a small value, a large one and a large negative one, and a
  rendering that names the format specification instead of applying it.
\<close>

definition history_task :: task_instance where
  "history_task =
     example_task\<lparr>past_time :=
       [(''2023-12-30 00:00:00'', Finite 4), (''2023-12-31 00:00:00'', Finite 2000000),
        (''2024-01-01 00:00:00'', Finite (- 10000000))]\<rparr>"

definition format_tag :: "format_spec \<Rightarrow> py_float \<Rightarrow> string" where
  "format_tag spec y = (case spec of General d \<Rightarrow> ''g'' | Fixed d \<Rightarrow> ''f'')"

section \<open>The parser\<close>

lemma split_on_not_Nil: "split_on sep s \<noteq> []"
  by (induction s) (auto split: list.splits)

lemma parse_line_value:
  "parse_line pf x = (case line_value pf x of None \<Rightarrow> (if length (split_on CHR '','' x) < 2 then Inl IndexError else Inl ValueError) | Some y \<Rightarrow> Inr (line_key x, y))"
  by (auto simp: parse_line_def line_value_def split: list.splits option.splits)

lemma line_value_None_iff:
  "line_value pf x = None \<longleftrightarrow>
     length (split_on CHR '','' x) < 2 \<or> pf (split_on CHR '','' x ! 1) = None"
  by (auto simp: line_value_def split: list.splits)


lemma build_dict_ok:
  "\<forall>x \<in> set xs. line_value pf x \<noteq> None \<Longrightarrow>
   build_dict pf xs m = Inr (m ++ map_of (rev (line_pairs pf xs)))"
proof (induction xs arbitrary: m)
  case Nil
  then show ?case by (simp add: line_pairs_def)
next
  case (Cons x xs)
  then obtain y where y: "line_value pf x = Some y" by auto
  have "build_dict pf (x # xs) m = build_dict pf xs (m(line_key x \<mapsto> y))"
    by (simp add: parse_line_value y)
  also have "\<dots> = Inr (m(line_key x \<mapsto> y) ++ map_of (rev (line_pairs pf xs)))"
    using Cons by simp
  also have "m(line_key x \<mapsto> y) ++ map_of (rev (line_pairs pf xs)) = m ++ map_of (rev (line_pairs pf (x # xs)))"
    by (rule ext) (simp add: line_pairs_def y map_add_def split: option.splits)
  finally show ?case .
qed

lemma build_dict_bad:
  "\<exists>x \<in> set xs. line_value pf x = None \<Longrightarrow> isl (build_dict pf xs m)"
proof (induction xs arbitrary: m)
  case Nil
  then show ?case by simp
next
  case (Cons x xs)
  then show ?case
    by (cases "line_value pf x") (auto simp: parse_line_value)
qed

lemma lookup_all_ok:
  "\<forall>t \<in> set ts. m t \<noteq> None \<Longrightarrow> lookup_all m ts = Inr (map (\<lambda>t. the (m t)) ts)"
  by (induction ts) auto

lemma lookup_all_bad:
  "t \<in> set ts \<Longrightarrow> m t = None \<Longrightarrow> lookup_all m ts = Inl KeyError"
  by (induction ts) (auto split: option.splits sum.splits)

lemma lookup_all_cong:
  "\<forall>t \<in> set ts. m t = m' t \<Longrightarrow> lookup_all m ts = lookup_all m' ts"
  by (induction ts) (auto split: option.splits sum.splits)


lemma parse_choice_ok:
  assumes "ex content = b # bs" and "\<forall>x \<in> set (block_lines b). line_value pf x \<noteq> None"
  shows "parse_choice ex pf targets content =
           lookup_all (map_of (rev (line_pairs pf (block_lines b)))) targets"
  using assms by (simp add: parse_choice_def build_dict_ok)

lemma parse_choice_bad_line:
  assumes "ex content = b # bs" and "x \<in> set (block_lines b)" and "line_value pf x = None"
  shows "isl (parse_choice ex pf targets content)"
proof -
  have "isl (build_dict pf (block_lines b) Map.empty)"
    using assms(2,3) by (intro build_dict_bad) blast
  then show ?thesis
    using assms(1) by (auto simp: parse_choice_def split: sum.splits)
qed

lemma fst_line_pairs: "map fst (line_pairs pf xs) = map line_key xs"
  by (simp add: line_pairs_def)

lemma dom_line_dict:
  "map_of (rev (line_pairs pf xs)) t = None \<longleftrightarrow> t \<notin> line_key ` set xs"
  by (simp add: map_of_eq_None_iff line_pairs_def image_image)

lemma map_of_filter_keys:
  "t \<in> T \<Longrightarrow> map_of (filter (\<lambda>p. fst p \<in> T) ps) t = map_of ps t"
  by (induction ps) auto

lemma line_dict_filter:
  assumes "t \<in> T"
  shows "map_of (rev (line_pairs pf (filter (\<lambda>x. line_key x \<in> T) xs))) t =
         map_of (rev (line_pairs pf xs)) t"
proof -
  have "rev (line_pairs pf (filter (\<lambda>x. line_key x \<in> T) xs)) =
        filter (\<lambda>p. fst p \<in> T) (rev (line_pairs pf xs))"
    by (simp add: line_pairs_def filter_map comp_def rev_map rev_filter)
  then show ?thesis using assms by (simp add: map_of_filter_keys)
qed

lemma line_pairs_mset:
  "mset xs' = mset xs \<Longrightarrow> mset (line_pairs pf xs') = mset (line_pairs pf xs)"
  by (metis line_pairs_def mset_map)

lemma line_dict_perm:
  assumes "mset xs' = mset xs" and "distinct (map line_key xs)"
  shows "map_of (rev (line_pairs pf xs')) = map_of (rev (line_pairs pf xs))"
proof -
  have "mset (map line_key xs') = mset (map line_key xs)"
    using assms(1) by (metis mset_map)
  then have d': "distinct (map line_key xs')"
    using assms(2) by (metis mset_eq_imp_distinct_iff)
  have "set (line_pairs pf xs') = set (line_pairs pf xs)"
    using line_pairs_mset [OF assms(1), of pf] by (rule mset_eq_setD)
  then show ?thesis
    using assms(2) d'
    by (subst map_of_inject_set) (simp_all add: fst_line_pairs rev_map [symmetric] distinct_rev)
qed

text \<open>
  Claim C4. Let the first block of a completion consist of well-formed pairs, one for
  each requested target timestamp and no other (the keys of its lines are distinct
  and are exactly the targets). Then the parse succeeds with one value for each
  target, the value at position \<open>i\<close> is that of the pair whose timestamp is the
  \<open>i\<close>-th target, and a completion whose block has the same pairs in any other
  order parses to the same sequence.
\<close>

theorem parse_choice_aligned:
  assumes "ex content = b # bs"
    and "ex content' = b' # bs'"
    and "mset (block_lines b') = mset (block_lines b)"
    and "\<forall>x \<in> set (block_lines b). line_value pf x \<noteq> None"
    and "distinct (map line_key (block_lines b))"
    and "line_key ` set (block_lines b) = set targets"
  shows "\<exists>ys. parse_choice ex pf targets content = Inr ys \<and>
              length ys = length targets \<and>
              (\<forall>i < length targets. \<exists>x \<in> set (block_lines b).
                 line_key x = targets ! i \<and> line_value pf x = Some (ys ! i)) \<and>
              parse_choice ex pf targets content' = Inr ys"
proof -
  let ?ps = "line_pairs pf (block_lines b)"
  let ?d = "map_of (rev ?ps)"
  let ?ys = "map (\<lambda>t. the (?d t)) targets"
  have dom: "\<forall>t \<in> set targets. ?d t \<noteq> None"
    using assms(6) by (simp add: dom_line_dict)
  have p: "parse_choice ex pf targets content = Inr ?ys"
    using assms(1,4) dom by (simp add: parse_choice_ok lookup_all_ok)
  have ok': "\<forall>x \<in> set (block_lines b'). line_value pf x \<noteq> None"
    using assms(4) mset_eq_setD [OF assms(3)] by simp
  have "map_of (rev (line_pairs pf (block_lines b'))) = ?d"
    using assms(3,5) by (rule line_dict_perm)
  then have p': "parse_choice ex pf targets content' = Inr ?ys"
    using assms(2) ok' dom by (simp add: parse_choice_ok lookup_all_ok)
  have al: "\<exists>x \<in> set (block_lines b).
              line_key x = targets ! i \<and> line_value pf x = Some (?ys ! i)"
    if i: "i < length targets" for i
  proof -
    from i have "targets ! i \<in> set targets" by simp
    with dom obtain y where y: "?d (targets ! i) = Some y" by blast
    then have "(targets ! i, y) \<in> set ?ps"
      using map_of_SomeD [of "rev ?ps" "targets ! i" y] by simp
    then obtain x where x: "x \<in> set (block_lines b)" "line_key x = targets ! i"
        "the (line_value pf x) = y"
      by (auto simp: line_pairs_def)
    with assms(4) have "line_value pf x = Some y" by auto
    with x y i show ?thesis by auto
  qed
  show ?thesis
    using p p' al by (intro exI [of _ ?ys]) simp
qed

theorem parse_choice_aligned_witness:
  "parse_choice first_forecast_block digits_float [''t1'', ''t2'']
     (''<forecast>(t1, 5)\<newline>(t2, 7)</forecast>'') = Inr [5, 7] \<and>
   parse_choice first_forecast_block digits_float [''t1'', ''t2'']
     (''<forecast>(t2, 7)\<newline>(t1, 5)</forecast>'') = Inr [5, 7]"
proof -
  let ?c = "''<forecast>(t1, 5)\<newline>(t2, 7)</forecast>''"
  let ?c' = "''<forecast>(t2, 7)\<newline>(t1, 5)</forecast>''"
  let ?b = "''(t1, 5)\<newline>(t2, 7)''"
  let ?b' = "''(t2, 7)\<newline>(t1, 5)''"
  have e: "first_forecast_block ?c = ?b # []" "first_forecast_block ?c' = ?b' # []"
    by (simp_all add: first_forecast_block_def strip_def is_blank_def)
  have l: "block_lines ?b = [''t1, 5'', ''t2, 7'']" "block_lines ?b' = [''t2, 7'', ''t1, 5'']"
    by (simp_all add: block_lines_def str_remove_def)
  have m: "mset (block_lines ?b') = mset (block_lines ?b)"
    by (simp add: l)
  have v: "\<forall>x \<in> set (block_lines ?b). line_value digits_float x \<noteq> None"
    by (simp add: l line_value_def digits_float_def strip_def is_blank_def is_digit_def)
  have d: "distinct (map line_key (block_lines ?b))"
    by (simp add: l line_key_def str_remove_def)
  have k: "line_key ` set (block_lines ?b) = set [''t1'', ''t2'']"
    by (simp add: l line_key_def str_remove_def)
  from parse_choice_aligned [where ex = first_forecast_block and content = ?c
      and content' = ?c', OF e m v d k]
  obtain ys where ys: "parse_choice first_forecast_block digits_float [''t1'', ''t2''] ?c = Inr ys"
     "parse_choice first_forecast_block digits_float [''t1'', ''t2''] ?c' = Inr ys"
    by blast
  have "parse_choice first_forecast_block digits_float [''t1'', ''t2''] ?c = Inr [5, 7]"
    by (simp add: parse_choice_def e l parse_line_def line_key_def str_remove_def
          digits_float_def strip_def is_blank_def is_digit_def)
  with ys show ?thesis by simp
qed

text \<open>
  Claim C5, as amended. A candidate is rejected exactly when no block is found, or a
  line of the block has fewer than two comma-separated fields, or the second field
  of a line is refused by \<^verbatim>\<open>float()\<close>, or a requested target timestamp is not the
  key of any line. Fields after the second are never read, so a line with more
  than two fields is not a reason for rejection. When every line of a block is
  well formed, the lines whose keys are not requested change nothing: the result
  is that of the block without them.
\<close>

theorem parse_choice_rejection:
  "(isl (parse_choice ex pf targets content) \<longleftrightarrow>
      ex content = [] \<or>
      (\<exists>b bs. ex content = b # bs \<and>
         ((\<exists>x \<in> set (block_lines b).
             length (split_on CHR '','' x) < 2 \<or> pf (split_on CHR '','' x ! 1) = None) \<or>
          (\<exists>t \<in> set targets. t \<notin> line_key ` set (block_lines b))))) \<and>
   (ex content1 = b1 # bs1 \<and> ex content2 = b2 # bs2 \<and>
    (\<forall>x \<in> set (block_lines b2). line_value pf x \<noteq> None) \<and>
    block_lines b1 = filter (\<lambda>x. line_key x \<in> set targets) (block_lines b2) \<longrightarrow>
      parse_choice ex pf targets content2 = parse_choice ex pf targets content1)"
proof (intro conjI impI)
  show "isl (parse_choice ex pf targets content) \<longleftrightarrow>
      ex content = [] \<or>
      (\<exists>b bs. ex content = b # bs \<and>
         ((\<exists>x \<in> set (block_lines b).
             length (split_on CHR '','' x) < 2 \<or> pf (split_on CHR '','' x ! 1) = None) \<or>
          (\<exists>t \<in> set targets. t \<notin> line_key ` set (block_lines b))))"
  proof (cases "ex content")
    case Nil
    then show ?thesis by (simp add: parse_choice_def)
  next
    case (Cons b bs)
    show ?thesis
    proof (cases "\<exists>x \<in> set (block_lines b). line_value pf x = None")
      case True
      then obtain x where x: "x \<in> set (block_lines b)" "line_value pf x = None" by blast
      have "isl (parse_choice ex pf targets content)"
        using Cons x by (rule parse_choice_bad_line)
      moreover have "length (split_on CHR '','' x) < 2 \<or> pf (split_on CHR '','' x ! 1) = None"
        using x(2) by (simp add: line_value_None_iff)
      ultimately show ?thesis using Cons x(1) by blast
    next
      case False
      then have ok: "\<forall>x \<in> set (block_lines b). line_value pf x \<noteq> None" by simp
      then have nobad: "\<not> (\<exists>x \<in> set (block_lines b).
             length (split_on CHR '','' x) < 2 \<or> pf (split_on CHR '','' x ! 1) = None)"
        by (simp add: line_value_None_iff)
      let ?d = "map_of (rev (line_pairs pf (block_lines b)))"
      have eq: "parse_choice ex pf targets content = lookup_all ?d targets"
        using Cons ok by (rule parse_choice_ok)
      have "isl (lookup_all ?d targets) \<longleftrightarrow> (\<exists>t \<in> set targets. ?d t = None)"
      proof
        assume l: "isl (lookup_all ?d targets)"
        show "\<exists>t \<in> set targets. ?d t = None"
        proof (rule ccontr)
          assume "\<not> (\<exists>t \<in> set targets. ?d t = None)"
          then have "\<forall>t \<in> set targets. ?d t \<noteq> None" by simp
          then have "\<not> isl (lookup_all ?d targets)" by (simp add: lookup_all_ok)
          with l show False by simp
        qed
      next
        assume "\<exists>t \<in> set targets. ?d t = None"
        then show "isl (lookup_all ?d targets)"
          using lookup_all_bad [of _ targets ?d] by auto
      qed
      then have "isl (parse_choice ex pf targets content) \<longleftrightarrow>
                   (\<exists>t \<in> set targets. t \<notin> line_key ` set (block_lines b))"
        by (simp add: eq dom_line_dict)
      with Cons nobad show ?thesis by auto
    qed
  qed
next
  assume a: "ex content1 = b1 # bs1 \<and> ex content2 = b2 # bs2 \<and>
    (\<forall>x \<in> set (block_lines b2). line_value pf x \<noteq> None) \<and>
    block_lines b1 = filter (\<lambda>x. line_key x \<in> set targets) (block_lines b2)"
  then have ok2: "\<forall>x \<in> set (block_lines b2). line_value pf x \<noteq> None" by simp
  from a have ok1: "\<forall>x \<in> set (block_lines b1). line_value pf x \<noteq> None" by simp
  have "parse_choice ex pf targets content2 =
        lookup_all (map_of (rev (line_pairs pf (block_lines b2)))) targets"
    using a ok2 by (intro parse_choice_ok) auto
  also have "\<dots> = lookup_all (map_of (rev (line_pairs pf (block_lines b1)))) targets"
    using a by (intro lookup_all_cong) (simp add: line_dict_filter)
  also have "\<dots> = parse_choice ex pf targets content1"
    using a ok1 by (intro parse_choice_ok [symmetric]) auto
  finally show "parse_choice ex pf targets content2 = parse_choice ex pf targets content1" .
qed

theorem parse_choice_rejection_witness:
  "\<not> isl (parse_choice first_forecast_block digits_float [''t1'']
            (''<forecast>(t9, 3)\<newline>(t1, 5)</forecast>'')) \<and>
   isl (parse_choice first_forecast_block digits_float [''t1''] ''no block'') \<and>
   isl (parse_choice first_forecast_block digits_float [''t1''] ''<forecast>(t1)</forecast>'') \<and>
   isl (parse_choice first_forecast_block digits_float [''t1''] ''<forecast>(t1, x)</forecast>'') \<and>
   isl (parse_choice first_forecast_block digits_float [''t1''] ''<forecast>(t2, 5)</forecast>'') \<and>
   parse_choice first_forecast_block digits_float [''t1'']
     (''<forecast>(t9, 3)\<newline>(t1, 5)</forecast>'') =
   parse_choice first_forecast_block digits_float [''t1''] ''<forecast>(t1, 5)</forecast>''"
proof -
  let ?c2 = "''<forecast>(t9, 3)\<newline>(t1, 5)</forecast>''"
  let ?b2 = "''(t9, 3)\<newline>(t1, 5)''"
  have e: "first_forecast_block ''<forecast>(t1, 5)</forecast>'' = ''(t1, 5)'' # []"
      "first_forecast_block ?c2 = ?b2 # []"
      "first_forecast_block ''no block'' = []"
      "first_forecast_block ''<forecast>(t1)</forecast>'' = ''(t1)'' # []"
      "first_forecast_block ''<forecast>(t1, x)</forecast>'' = ''(t1, x)'' # []"
      "first_forecast_block ''<forecast>(t2, 5)</forecast>'' = ''(t2, 5)'' # []"
    by (simp_all add: first_forecast_block_def strip_def is_blank_def)
  have l: "block_lines ''(t1, 5)'' = [''t1, 5'']" "block_lines ?b2 = [''t9, 3'', ''t1, 5'']"
      "block_lines ''(t1)'' = [''t1'']" "block_lines ''(t1, x)'' = [''t1, x'']"
      "block_lines ''(t2, 5)'' = [''t2, 5'']"
    by (simp_all add: block_lines_def str_remove_def)
  have v: "\<forall>x \<in> set (block_lines ?b2). line_value digits_float x \<noteq> None"
    by (simp add: l line_value_def digits_float_def strip_def is_blank_def is_digit_def)
  have f: "block_lines ''(t1, 5)'' =
           filter (\<lambda>x. line_key x \<in> set [''t1'']) (block_lines ?b2)"
    by (simp add: l line_key_def str_remove_def)
  note r = parse_choice_rejection [of first_forecast_block digits_float "[''t1'']"]
  have 1: "\<not> isl (parse_choice first_forecast_block digits_float [''t1''] ?c2)"
    using r [of ?c2]
    by (simp add: e l line_key_def str_remove_def digits_float_def strip_def is_blank_def
          is_digit_def)
  have 2: "isl (parse_choice first_forecast_block digits_float [''t1''] ''no block'')"
    using r [of "''no block''"] by (simp add: e)
  have 3: "isl (parse_choice first_forecast_block digits_float [''t1'']
                  ''<forecast>(t1)</forecast>'')"
    using r [of "''<forecast>(t1)</forecast>''"] by (simp add: e l)
  have 4: "isl (parse_choice first_forecast_block digits_float [''t1'']
                  ''<forecast>(t1, x)</forecast>'')"
    using r [of "''<forecast>(t1, x)</forecast>''"]
    by (simp add: e l digits_float_def strip_def is_blank_def is_digit_def)
  have 5: "isl (parse_choice first_forecast_block digits_float [''t1'']
                  ''<forecast>(t2, 5)</forecast>'')"
    using r [of "''<forecast>(t2, 5)</forecast>''"]
    by (simp add: e l line_key_def str_remove_def)
  have 6: "parse_choice first_forecast_block digits_float [''t1''] ?c2 =
           parse_choice first_forecast_block digits_float [''t1'']
             ''<forecast>(t1, 5)</forecast>''"
    using r [of _ "''<forecast>(t1, 5)</forecast>''" "''(t1, 5)''" "[]" ?c2 ?b2 "[]"] e v f
    by blast
  show ?thesis using 1 2 3 4 5 6 by blast
qed

text \<open>
  The claim as first stated asks for a rejection whenever a line does not split into
  exactly a timestamp and a value. The line below splits into three fields and the
  candidate is accepted.
\<close>

theorem three_fields_accepted:
  "first_forecast_block ''<forecast>(t1, 5, 7)</forecast>'' = [''(t1, 5, 7)''] \<and>
   block_lines ''(t1, 5, 7)'' = [''t1, 5, 7''] \<and>
   split_on CHR '','' ''t1, 5, 7'' = [''t1'', '' 5'', '' 7''] \<and>
   parse_choice first_forecast_block digits_float [''t1'']
     ''<forecast>(t1, 5, 7)</forecast>'' = Inr [5]"
  by (simp add: parse_choice_def first_forecast_block_def strip_def is_blank_def
        block_lines_def str_remove_def parse_line_def line_key_def digits_float_def
        is_digit_def)

section \<open>The loop\<close>

lemma while_loop_stop:
  "\<not> (int (length (valid_forecasts st)) < n_samples \<and> 0 < loc_n_retries st) \<Longrightarrow>
   while_loop ext self task n_samples st = (None, st)"
  by (subst while_loop.simps) auto

lemma while_loop_error:
  "int (length (valid_forecasts st)) < n_samples \<Longrightarrow> 0 < loc_n_retries st \<Longrightarrow>
   client ext (client_state st) (loc_batch_size st) = (None, cs) \<Longrightarrow>
   while_loop ext self task n_samples st =
     (Some BackendError,
      st\<lparr>requests := requests st @ [(loc_batch_size st, length (valid_forecasts st))],
          client_state := cs\<rparr>)"
  by (subst while_loop.simps) simp

lemma while_loop_round:
  "int (length (valid_forecasts st)) < n_samples \<Longrightarrow> 0 < loc_n_retries st \<Longrightarrow>
   client ext (client_state st) (loc_batch_size st) = (Some resp, cs) \<Longrightarrow>
   while_loop ext self task n_samples st =
     while_loop ext self task n_samples
       (loop_round ext self task n_samples
          (st\<lparr>requests := requests st @ [(loc_batch_size st, length (valid_forecasts st))],
              client_state := cs\<rparr>) resp)"
  by (subst while_loop.simps) simp

lemma while_loop_rule:
  assumes init: "I st"
    and step: "\<And>st resp cs.
        I st \<Longrightarrow> int (length (valid_forecasts st)) < n_samples \<Longrightarrow> 0 < loc_n_retries st \<Longrightarrow>
        client ext (client_state st) (loc_batch_size st) = (Some resp, cs) \<Longrightarrow>
        I (loop_round ext self task n_samples
             (st\<lparr>requests := requests st @ [(loc_batch_size st, length (valid_forecasts st))],
                 client_state := cs\<rparr>) resp)"
    and err: "\<And>st cs.
        I st \<Longrightarrow> int (length (valid_forecasts st)) < n_samples \<Longrightarrow> 0 < loc_n_retries st \<Longrightarrow>
        client ext (client_state st) (loc_batch_size st) = (None, cs) \<Longrightarrow>
        Q (Some BackendError,
           st\<lparr>requests := requests st @ [(loc_batch_size st, length (valid_forecasts st))],
               client_state := cs\<rparr>)"
    and fin: "\<And>st.
        I st \<Longrightarrow> \<not> (int (length (valid_forecasts st)) < n_samples \<and> 0 < loc_n_retries st) \<Longrightarrow>
        Q (None, st)"
  shows "Q (while_loop ext self task n_samples st)"
  using assms
proof (induction ext self task n_samples st rule: while_loop.induct)
  case (1 ext self task n_samples st)
  note init = "1.prems"(1) and step = "1.prems"(2) and err = "1.prems"(3)
    and fin = "1.prems"(4)
  show ?case
  proof (cases "int (length (valid_forecasts st)) < n_samples \<and> 0 < loc_n_retries st")
    case False
    then have "while_loop ext self task n_samples st = (None, st)"
      by (rule while_loop_stop)
    moreover have "Q (None, st)"
      using init False by (rule fin)
    ultimately show ?thesis by simp
  next
    case True
    obtain r cs where c: "client ext (client_state st) (loc_batch_size st) = (r, cs)"
      by (cases "client ext (client_state st) (loc_batch_size st)")
    show ?thesis
    proof (cases r)
      case None
      with True c init err show ?thesis
        by (simp add: while_loop_error)
    next
      case (Some resp)
      let ?st' = "loop_round ext self task n_samples
             (st\<lparr>requests := requests st @ [(loc_batch_size st, length (valid_forecasts st))],
                 client_state := cs\<rparr>) resp"
      have "I ?st'"
        using step init True c Some by simp
      then have "Q (while_loop ext self task n_samples ?st')"
        using "1.IH" [OF True refl c [symmetric] Some] step err fin by blast
      with True c Some show ?thesis
        by (simp add: while_loop_round)
    qed
  qed
qed

lemma loop_round_fields:
  "total_tokens_input (loop_round ext self task n st r) = total_tokens_input st + prompt_tokens r"
  "total_tokens_output (loop_round ext self task n st r) =
     total_tokens_output st + completion_tokens r"
  "responses (loop_round ext self task n st r) = responses st @ [r]"
  "requests (loop_round ext self task n st r) = requests st"
  "client_state (loop_round ext self task n st r) = client_state st"
  "loc_n_retries (loop_round ext self task n st r) = loc_n_retries st - 1"
  by (simp_all add: loop_round_def Let_def split: prod.splits)

lemma loop_round_forecasts:
  "valid_forecasts (loop_round ext self task n st r) =
     slice_upto n (fst (fold (for_choice ext task) (choices r)
                          (valid_forecasts st, llm_outputs st)))"
  "loc_batch_size (loop_round ext self task n st r) =
     (case max_crazycast_batch_size task of
        Some m \<Rightarrow>
          min (max (n - int (length (fst (fold (for_choice ext task) (choices r)
                                            (valid_forecasts st, llm_outputs st)))))
                 (batch_size_on_retry self)) m
      | None \<Rightarrow> batch_size_on_retry self)"
  by (auto simp: loop_round_def Let_def split: prod.splits option.splits)


lemma while_loop_tokens:
  assumes "tokens_counted st"
  shows "tokens_counted (snd (while_loop ext self task n_samples st))"
  using assms
  by (rule while_loop_rule [where I = tokens_counted])
     (simp_all add: tokens_counted_def loop_round_fields)

lemma while_loop_error_kind:
  "fst (while_loop ext self task n_samples st) = None \<or>
   fst (while_loop ext self task n_samples st) = Some BackendError"
  by (rule while_loop_rule [where I = "\<lambda>_. True"]) simp_all

lemma first_batch_error: "first_batch self task n = Inl e \<Longrightarrow> e = ZeroDivisionError"
  by (auto simp: first_batch_def Let_def split: option.splits if_splits)

lemma call_cases [case_names Assert Zero Backend Finish]:
  obtains
    "\<not> asserts_hold self n"
    "call ext self task n cs =
       \<lparr>returned = Inl AssertionError, engine = self, backend = cs, sent = [], received = []\<rparr>"
  | "asserts_hold self n"
    "call ext self task n cs =
       \<lparr>returned = Inl ZeroDivisionError, engine = self, backend = cs,
        sent = [], received = []\<rparr>"
  | b r st where "asserts_hold self n" "first_batch self task n = Inr (b, r)"
    "while_loop ext self task n (initial_state b r cs) = (Some BackendError, st)"
    "call ext self task n cs =
       \<lparr>returned = Inl BackendError, engine = self, backend = client_state st,
        sent = requests st, received = responses st\<rparr>"
  | b r st where "asserts_hold self n" "first_batch self task n = Inr (b, r)"
    "while_loop ext self task n (initial_state b r cs) = (None, st)"
    "call ext self task n cs = finish ext self n st"
proof (cases "asserts_hold self n")
  case False
  then show ?thesis using that(1) by (simp add: call_def)
next
  case True
  show ?thesis
  proof (cases "first_batch self task n")
    case (Inl e)
    then have "e = ZeroDivisionError" by (rule first_batch_error)
    with True Inl show ?thesis using that(2) by (simp add: call_def)
  next
    case (Inr p)
    obtain b r where p: "p = (b, r)" by (cases p)
    obtain e st where w: "while_loop ext self task n (initial_state b r cs) = (e, st)"
      by (cases "while_loop ext self task n (initial_state b r cs)")
    show ?thesis
    proof (cases e)
      case None
      with True Inr p w show ?thesis using that(4) by (simp add: call_def)
    next
      case (Some err)
      with w while_loop_error_kind [of ext self task n "initial_state b r cs"]
      have "err = BackendError" by simp
      with True Inr p w Some show ?thesis using that(3) by (simp add: call_def)
    qed
  qed
qed

lemma finish_log:
  "sent (finish ext self n st) = requests st"
  "received (finish ext self n st) = responses st"
  "backend (finish ext self n st) = client_state st"
  by (simp_all add: finish_def Let_def split: prod.splits)

lemma finish_returned:
  assumes "returned (finish ext self n st) = Inr (samples, info)"
  shows "\<not> (fail_on_invalid self \<and> int (length (valid_forecasts st)) < n)"
    and "valid_forecasts st \<noteq> []"
    and "samples = map (map (\<lambda>v. [v])) (valid_forecasts st)"
    and "total_input_tokens info = total_tokens_input st"
    and "total_output_tokens info = total_tokens_output st"
    and "info_llm_outputs info = llm_outputs st"
    and "total_token_cost info =
           map_option (\<lambda>p. current_cost ext p (total_tokens_input st) (total_tokens_output st))
             (token_cost self)"
  using assms
  by (auto simp: finish_def Let_def stack_samples_def split: if_splits option.splits)

lemma finish_engine:
  "engine (finish ext self n st) =
     (if fail_on_invalid self \<and> int (length (valid_forecasts st)) < n then self
      else case token_cost self of
             None \<Rightarrow> self
           | Some p \<Rightarrow>
               self\<lparr>total_cost := fl_add ext (total_cost self)
                  (current_cost ext p (total_tokens_input st) (total_tokens_output st))\<rparr>)"
  by (simp add: finish_def Let_def split: option.splits)

lemma finish_runtime_error:
  "returned (finish ext self n st) = Inl (RuntimeError a k) \<longleftrightarrow>
     fail_on_invalid self \<and> int (length (valid_forecasts st)) < n \<and> a = n \<and>
     k = int (length (valid_forecasts st))"
  by (auto simp: finish_def Let_def stack_samples_def split: option.splits)

lemma initial_tokens_counted: "tokens_counted (initial_state b r cs)"
  by (simp add: tokens_counted_def initial_state_def)

text \<open>
  Claim C6. When a call returns, the two token counters of \<^verbatim>\<open>extra_info\<close> are the
  sums of \<^verbatim>\<open>prompt_tokens\<close> and of \<^verbatim>\<open>completion_tokens\<close> over all the responses
  that the client gave during the call, whether or not their choices were accepted.
\<close>

theorem token_counters_sum:
  assumes "returned (call ext self task n_samples cs) = Inr (samples, info)"
  shows "total_input_tokens info =
           sum_list (map prompt_tokens (received (call ext self task n_samples cs))) \<and>
         total_output_tokens info =
           sum_list (map completion_tokens (received (call ext self task n_samples cs)))"
proof (cases rule: call_cases [where ext = ext and self = self and task = task
      and n = n_samples and cs = cs])
  case (Finish b r st)
  have "tokens_counted (snd (while_loop ext self task n_samples (initial_state b r cs)))"
    using initial_tokens_counted by (rule while_loop_tokens)
  then have t: "tokens_counted st" by (simp add: Finish(3))
  from assms have f: "returned (finish ext self n_samples st) = Inr (samples, info)"
    by (simp add: Finish(4))
  show ?thesis
    using t finish_returned(4,5) [OF f]
    by (simp add: Finish(4) finish_log tokens_counted_def)
qed (use assms in simp_all)

text \<open>In the first round of this call the only candidate is rejected.\<close>

theorem token_counters_sum_witness:
  "returned (call exact_externals example_engine example_task 1 example_script) =
     Inr ([[[5]]],
          \<lparr>total_input_tokens = 200, total_output_tokens = 50,
           info_llm_outputs = [bad_choice, good_choice],
           input_token_cost = Some (5 / 2), output_token_cost = Some 10,
           total_token_cost = Some 1\<rparr>) \<and>
   received (call exact_externals example_engine example_task 1 example_script) =
     example_script \<and>
   sum_list (map prompt_tokens example_script) = 200 \<and>
   sum_list (map completion_tokens example_script) = 50"
proof -
  let ?c = "call exact_externals example_engine example_task 1 example_script"
  let ?info = "\<lparr>total_input_tokens = 200, total_output_tokens = 50,
           info_llm_outputs = [bad_choice, good_choice],
           input_token_cost = Some (5 / 2), output_token_cost = Some 10,
           total_token_cost = Some (1::real)\<rparr>"
  have r: "returned ?c = Inr ([[[5]]], ?info)" by code_simp
  have l: "received ?c = example_script" by code_simp
  from token_counters_sum [OF r]
  have "sum_list (map prompt_tokens (received ?c)) = 200"
    "sum_list (map completion_tokens (received ?c)) = 50"
    by simp_all
  with r l show ?thesis by simp
qed

text \<open>
  Claim C7. When a call returns on an engine that has a \<^verbatim>\<open>token_cost\<close>, the cost
  it reports is \<^verbatim>\<open>round(tokens_in / 1000 * price_in + tokens_out / 1000 * price_out, 2)\<close>
  for the token sums of all the responses of the call, and the engine's
  \<^verbatim>\<open>total_cost\<close> after the call is its value before the call plus this cost.
\<close>

theorem call_cost:
  assumes "returned (call ext self task n_samples cs) = Inr (samples, info)"
    and "token_cost self = Some (price_in, price_out)"
  shows "\<exists>cost.
           cost =
             fl_round ext
               (fl_add ext
                  (fl_mul ext
                     (int_truediv ext
                        (sum_list (map prompt_tokens
                           (received (call ext self task n_samples cs)))) 1000)
                     price_in)
                  (fl_mul ext
                     (int_truediv ext
                        (sum_list (map completion_tokens
                           (received (call ext self task n_samples cs)))) 1000)
                     price_out)) 2 \<and>
           total_token_cost info = Some cost \<and>
           total_cost (engine (call ext self task n_samples cs)) =
             fl_add ext (total_cost self) cost"
proof (cases rule: call_cases [where ext = ext and self = self and task = task
      and n = n_samples and cs = cs])
  case (Finish b r st)
  have "tokens_counted (snd (while_loop ext self task n_samples (initial_state b r cs)))"
    using initial_tokens_counted by (rule while_loop_tokens)
  then have t: "tokens_counted st" by (simp add: Finish(3))
  from assms have f: "returned (finish ext self n_samples st) = Inr (samples, info)"
    by (simp add: Finish(4))
  show ?thesis
    using t finish_returned(1,7) [OF f] assms(2)
    by (auto simp: Finish(4) finish_log finish_engine tokens_counted_def current_cost_def)
qed (use assms in simp_all)

theorem call_cost_witness:
  "returned (call exact_externals example_engine example_task 1 example_script) =
     Inr ([[[5]]],
          \<lparr>total_input_tokens = 200, total_output_tokens = 50,
           info_llm_outputs = [bad_choice, good_choice],
           input_token_cost = Some (5 / 2), output_token_cost = Some 10,
           total_token_cost = Some 1\<rparr>) \<and>
   token_cost example_engine = Some (5 / 2, 10) \<and>
   total_cost example_engine = 0 \<and>
   total_cost (engine (call exact_externals example_engine example_task 1 example_script)) = 1 \<and>
   total_cost (engine (call exact_externals
      (engine (call exact_externals example_engine example_task 1 example_script))
      example_task 1 example_script)) = 2"
proof -
  let ?c = "call exact_externals example_engine example_task 1 example_script"
  let ?c' = "call exact_externals (engine ?c) example_task 1 example_script"
  let ?info = "\<lparr>total_input_tokens = 200, total_output_tokens = 50,
           info_llm_outputs = [bad_choice, good_choice],
           input_token_cost = Some (5 / 2), output_token_cost = Some 10,
           total_token_cost = Some (1::real)\<rparr>"
  have r: "returned ?c = Inr ([[[5]]], ?info)" by code_simp
  have r': "returned ?c' = Inr ([[[5]]], ?info)" by code_simp
  have p: "token_cost example_engine = Some (5 / 2, 10)" "total_cost example_engine = 0"
    by (simp_all add: example_engine_def)
  have p': "token_cost (engine ?c) = Some (5 / 2, 10)" by code_simp
  have a: "fl_add exact_externals x y = x + y" for x y
    by (simp add: exact_externals_def)
  from call_cost [OF r p(1)] have 1: "total_cost (engine ?c) = 1"
    by (simp add: a p(2))
  from call_cost [OF r' p'] have 2: "total_cost (engine ?c') = 2"
    by (simp add: a 1)
  from r p 1 2 show ?thesis by simp
qed

text \<open>
  Claim C10. A call that raises the \<^verbatim>\<open>RuntimeError\<close> of line 413 does so with
  \<^verbatim>\<open>fail_on_invalid\<close> set and fewer than \<^verbatim>\<open>n_samples\<close> valid forecasts, and it
  leaves \<^verbatim>\<open>total_cost\<close> as it was.
\<close>

theorem failed_call_not_charged:
  assumes "returned (call ext self task n_samples cs) = Inl (RuntimeError n k)"
  shows "fail_on_invalid self \<and> n = n_samples \<and> k < n_samples \<and>
         total_cost (engine (call ext self task n_samples cs)) = total_cost self"
proof (cases rule: call_cases [where ext = ext and self = self and task = task
      and n = n_samples and cs = cs])
  case (Finish b r st)
  from assms have "returned (finish ext self n_samples st) = Inl (RuntimeError n k)"
    by (simp add: Finish(4))
  then show ?thesis
    by (simp add: Finish(4) finish_runtime_error finish_engine)
qed (use assms in simp_all)

text \<open>Both rounds of this call consume tokens and neither yields a forecast.\<close>

theorem failed_call_not_charged_witness:
  "returned (call exact_externals example_engine example_task 1 rejected_script) =
     Inl (RuntimeError 1 0) \<and>
   received (call exact_externals example_engine example_task 1 rejected_script) =
     rejected_script \<and>
   total_cost (engine (call exact_externals example_engine example_task 1 rejected_script)) =
     total_cost example_engine"
proof -
  let ?c = "call exact_externals example_engine example_task 1 rejected_script"
  have r: "returned ?c = Inl (RuntimeError 1 0)" by code_simp
  have l: "received ?c = rejected_script" by code_simp
  from failed_call_not_charged [OF r] r l show ?thesis by simp
qed

section \<open>Batch sizes and configuration checks\<close>

lemma slice_upto_short:
  assumes "0 < n" and "int (length (slice_upto n xs)) < n"
  shows "slice_upto n xs = xs"
  using assms by (auto simp: slice_upto_def min_def split: if_splits)

lemma slice_upto_length: "0 \<le> n \<Longrightarrow> int (length (slice_upto n xs)) \<le> n"
  by (simp add: slice_upto_def)

lemma while_loop_requests_shape:
  fixes self :: "'f crazycast" and st :: "('f, 's) loop_state"
    and task :: task_instance and n_samples :: int
  assumes "requests st = []" and "valid_forecasts st = []"
  defines "P \<equiv> \<lambda>k. (case max_crazycast_batch_size task of
                       Some m \<Rightarrow> min (max (n_samples - int k) (batch_size_on_retry self)) m
                     | None \<Rightarrow> batch_size_on_retry self)"
  shows "\<exists>rest. (requests (snd (while_loop ext self task n_samples st)) = [] \<or>
                requests (snd (while_loop ext self task n_samples st)) =
                  (loc_batch_size st, 0) # rest) \<and>
               (\<forall>(n, k) \<in> set rest. n = P k)"
proof -
  let ?B = "loc_batch_size st"
  let ?G = "\<lambda>s :: ('f, 's) loop_state.
              int (length (valid_forecasts s)) < n_samples \<and> 0 < loc_n_retries s"
  let ?S = "\<lambda>rs. \<exists>rest. (rs = [] \<or> rs = (?B, 0) # rest) \<and> (\<forall>(n, k) \<in> set rest. n = P k)"
  let ?I = "\<lambda>s :: ('f, 's) loop_state.
              (requests s = [] \<and> valid_forecasts s = [] \<and> loc_batch_size s = ?B) \<or>
              (requests s \<noteq> [] \<and> ?S (requests s) \<and>
               (?G s \<longrightarrow> loc_batch_size s = P (length (valid_forecasts s))))"
  have ext_ok: "?S (rs @ [(b, k)])" if "rs \<noteq> []" "?S rs" "b = P k" for rs b k
  proof -
    from that obtain rest where "rs = (?B, 0) # rest" "\<forall>(n, k) \<in> set rest. n = P k"
      by auto
    then have "rs @ [(b, k)] = (?B, 0) # (rest @ [(b, k)])"
        "\<forall>(n, k) \<in> set (rest @ [(b, k)]). n = P k"
      using that(3) by auto
    then show ?thesis by blast
  qed
  have "?S (requests (snd (while_loop ext self task n_samples st)))"
  proof (rule while_loop_rule [where I = ?I])
    show "?I st" using assms(1,2) by simp
  next
    fix s :: "('f, 's) loop_state" and resp cs
    assume I: "?I s" and g: "int (length (valid_forecasts s)) < n_samples" "0 < loc_n_retries s"
    let ?asked = "s\<lparr>requests := requests s @ [(loc_batch_size s, length (valid_forecasts s))],
                     client_state := cs\<rparr>"
    let ?s' = "loop_round ext self task n_samples ?asked resp"
    let ?fs = "fst (fold (for_choice ext task) (choices resp)
                      (valid_forecasts s, llm_outputs s))"
    have r: "requests ?s' = requests s @ [(loc_batch_size s, length (valid_forecasts s))]"
      by (simp add: loop_round_fields)
    have shape: "?S (requests ?s')"
    proof (cases "requests s = []")
      case True
      with I have "valid_forecasts s = []" "loc_batch_size s = ?B" by auto
      with True r have "requests ?s' = (?B, 0) # []" by simp
      then show ?thesis by simp
    next
      case False
      with I g have "?S (requests s)" "loc_batch_size s = P (length (valid_forecasts s))"
        by auto
      with False show ?thesis unfolding r by (intro ext_ok)
    qed
    have pos: "0 < n_samples" using g(1) by linarith
    have b: "loc_batch_size ?s' = P (length ?fs)"
      by (simp add: loop_round_forecasts P_def split: option.splits)
    have v: "valid_forecasts ?s' = slice_upto n_samples ?fs"
      by (simp add: loop_round_forecasts)
    have "loc_batch_size ?s' = P (length (valid_forecasts ?s'))" if "?G ?s'"
    proof -
      from that have "int (length (slice_upto n_samples ?fs)) < n_samples" by (simp add: v)
      with pos have "slice_upto n_samples ?fs = ?fs" by (rule slice_upto_short)
      with b v show ?thesis by simp
    qed
    moreover have "requests ?s' \<noteq> []" by (simp add: r)
    ultimately show "?I ?s'" using shape by blast
  next
    fix s :: "('f, 's) loop_state" and cs
    assume I: "?I s" and g: "int (length (valid_forecasts s)) < n_samples" "0 < loc_n_retries s"
    let ?rs = "requests s @ [(loc_batch_size s, length (valid_forecasts s))]"
    have "?S ?rs"
    proof (cases "requests s = []")
      case True
      with I have "valid_forecasts s = []" "loc_batch_size s = ?B" by auto
      with True have "?rs = (?B, 0) # []" by simp
      then show ?thesis by simp
    next
      case False
      with I g have "?S (requests s)" "loc_batch_size s = P (length (valid_forecasts s))"
        by auto
      with False show ?thesis by (intro ext_ok)
    qed
    then show "?S (requests (snd (Some BackendError,
                 s\<lparr>requests := ?rs, client_state := cs\<rparr>)))"
      by simp
  next
    fix s :: "('f, 's) loop_state"
    assume I: "?I s"
    have "?S []" by (intro exI [of _ "[]"]) simp
    with I show "?S (requests (snd (None :: error option, s)))" by auto
  qed
  then show ?thesis by simp
qed

lemma while_loop_requests_bound:
  fixes st :: "('f, 's) loop_state"
  assumes "requests st = []"
  shows "int (length (requests (snd (while_loop ext self task n_samples st)))) \<le>
           max 0 (loc_n_retries st)"
proof -
  let ?R = "loc_n_retries st"
  let ?I = "\<lambda>s :: ('f, 's) loop_state.
              int (length (requests s)) + loc_n_retries s = ?R \<and>
              (requests s \<noteq> [] \<longrightarrow> 0 \<le> loc_n_retries s)"
  show ?thesis
  proof (rule while_loop_rule [where I = ?I])
    show "?I st" using assms by simp
  qed (auto simp: loop_round_fields)
qed

lemma while_loop_requests_exact:
  fixes st :: "('f, 's) loop_state"
  assumes "requests st = []"
    and "while_loop ext self task n_samples st = (None, st')"
    and "int (length (valid_forecasts st')) < n_samples"
  shows "int (length (requests st')) = max 0 (loc_n_retries st)"
proof -
  let ?R = "loc_n_retries st"
  let ?I = "\<lambda>s :: ('f, 's) loop_state.
              int (length (requests s)) + loc_n_retries s = ?R \<and>
              (0 \<le> ?R \<longrightarrow> 0 \<le> loc_n_retries s) \<and>
              (?R < 0 \<longrightarrow> requests s = [])"
  let ?Q = "\<lambda>res :: error option \<times> ('f, 's) loop_state.
              fst res = None \<and> int (length (valid_forecasts (snd res))) < n_samples \<longrightarrow>
              int (length (requests (snd res))) = max 0 ?R"
  have "?Q (while_loop ext self task n_samples st)"
  proof (rule while_loop_rule [where I = ?I])
    show "?I st" using assms(1) by simp
  next
    fix s :: "('f, 's) loop_state" and resp :: response and cs
    assume "?I s" "0 < loc_n_retries s"
    then show "?I (loop_round ext self task n_samples
             (s\<lparr>requests := requests s @ [(loc_batch_size s, length (valid_forecasts s))],
                 client_state := cs\<rparr>) resp)"
      by (auto simp: loop_round_fields)
  next
    fix s :: "('f, 's) loop_state"
    assume "?I s"
      "\<not> (int (length (valid_forecasts s)) < n_samples \<and> 0 < loc_n_retries s)"
    then show "?Q (None, s)" by (auto simp: max_def)
  qed simp
  with assms(2,3) show ?thesis by simp
qed

lemma first_batch_value:
  "first_batch self task n = Inr (b, r) \<Longrightarrow>
   b = (case max_crazycast_batch_size task of
          Some m \<Rightarrow> min (default_batch_size self n) m
        | None \<Rightarrow> default_batch_size self n) \<and>
   r = (case max_crazycast_batch_size task of
          Some m \<Rightarrow> n_retries self +
                    default_batch_size self n div min (default_batch_size self n) m
        | None \<Rightarrow> n_retries self)"
  by (auto simp: first_batch_def Let_def split: option.splits if_splits)

text \<open>
  Claim C2. Let \<open>d\<close> be the default batch size: the \<^verbatim>\<open>batch_size\<close> of the engine, or
  \<^verbatim>\<open>n_samples\<close> when that is \<^verbatim>\<open>None\<close> (or 0, which \<^verbatim>\<open>not self.batch_size\<close> treats
  alike). Of the requests of a call, each taken with the number of valid forecasts
  held when it was made, the first asks for \<^verbatim>\<open>min(d, max_batch_size)\<close> under a cap
  and for \<open>d\<close> without one; every later request asks for
  \<^verbatim>\<open>min(max(n_samples - valid, batch_size_on_retry), max_batch_size)\<close> under a cap
  and for \<^verbatim>\<open>batch_size_on_retry\<close> without one. The retry budget, which is the local
  \<^verbatim>\<open>n_retries\<close> when the loop is entered, is \<^verbatim>\<open>n_retries + d // min(d, max_batch_size)\<close>
  under a cap and \<^verbatim>\<open>n_retries\<close> without one: no call makes more requests than
  that, and a call that ends with fewer than \<^verbatim>\<open>n_samples\<close> valid forecasts, by the
  \<^verbatim>\<open>RuntimeError\<close> or by returning a short array, has made exactly that many.
\<close>

theorem batch_size_policy:
  "\<exists>d budget rest.
     d = (case batch_size self of
            None \<Rightarrow> n_samples
          | Some b \<Rightarrow> if b = 0 then n_samples else b) \<and>
     budget = (case max_crazycast_batch_size task of
                 Some m \<Rightarrow> n_retries self + d div min d m
               | None \<Rightarrow> n_retries self) \<and>
     (sent (call ext self task n_samples cs) = [] \<or>
      sent (call ext self task n_samples cs) =
        ((case max_crazycast_batch_size task of
            Some m \<Rightarrow> min d m
          | None \<Rightarrow> d), 0) # rest) \<and>
     (\<forall>(n, k) \<in> set rest.
        n = (case max_crazycast_batch_size task of
               Some m \<Rightarrow> min (max (n_samples - int k) (batch_size_on_retry self)) m
             | None \<Rightarrow> batch_size_on_retry self)) \<and>
     (\<forall>b r. first_batch self task n_samples = Inr (b, r) \<longrightarrow> r = budget) \<and>
     int (length (sent (call ext self task n_samples cs))) \<le> max 0 budget \<and>
     (\<forall>n k. returned (call ext self task n_samples cs) = Inl (RuntimeError n k) \<longrightarrow>
        int (length (sent (call ext self task n_samples cs))) = max 0 budget) \<and>
     (\<forall>samples info.
        returned (call ext self task n_samples cs) = Inr (samples, info) \<and>
        int (length samples) < n_samples \<longrightarrow>
        int (length (sent (call ext self task n_samples cs))) = max 0 budget)"
proof -
  let ?d = "case batch_size self of
            None \<Rightarrow> n_samples
          | Some b \<Rightarrow> if b = 0 then n_samples else b"
  let ?B = "case max_crazycast_batch_size task of
            Some m \<Rightarrow> min ?d m
          | None \<Rightarrow> ?d"
  let ?R = "case max_crazycast_batch_size task of
                Some m \<Rightarrow> n_retries self + ?d div min ?d m
              | None \<Rightarrow> n_retries self"
  let ?P = "\<lambda>k. case max_crazycast_batch_size task of
               Some m \<Rightarrow> min (max (n_samples - int k) (batch_size_on_retry self)) m
             | None \<Rightarrow> batch_size_on_retry self"
  let ?S = "\<lambda>rs. \<exists>rest. (rs = [] \<or> rs = (?B, 0) # rest) \<and> (\<forall>(n, k) \<in> set rest. n = ?P k)"
  let ?C = "call ext self task n_samples cs"
  have dd: "default_batch_size self n_samples = ?d"
    by (simp add: default_batch_size_def)
  have fbv: "b = ?B \<and> r = ?R" if "first_batch self task n_samples = Inr (b, r)" for b r
    using first_batch_value [OF that] by (simp only: dd)
  have nil: "?S []" by (intro exI [of _ "[]"]) simp
  have looped: "?S (requests st) \<and> int (length (requests st)) \<le> max 0 ?R \<and>
                (e = None \<and> int (length (valid_forecasts st)) < n_samples \<longrightarrow>
                   int (length (requests st)) = max 0 ?R)"
    if fb: "first_batch self task n_samples = Inr (b, r)"
      and w: "while_loop ext self task n_samples (initial_state b r cs) = (e, st)"
    for b r e st
  proof -
    let ?st0 = "initial_state b r cs :: ('a, 'b) loop_state"
    from fbv [OF fb] have b: "b = ?B" and r: "r = ?R" by simp_all
    have i: "requests ?st0 = []" "valid_forecasts ?st0 = []" "loc_batch_size ?st0 = b"
        "loc_n_retries ?st0 = r"
      by (simp_all add: initial_state_def)
    have "\<exists>rest. (requests (snd (while_loop ext self task n_samples ?st0)) = [] \<or>
                requests (snd (while_loop ext self task n_samples ?st0)) =
                  (loc_batch_size ?st0, 0) # rest) \<and>
               (\<forall>(n, k) \<in> set rest. n = ?P k)"
      using i(1,2) by (rule while_loop_requests_shape)
    then have "\<exists>rest. (requests st = [] \<or> requests st = (b, 0) # rest) \<and>
               (\<forall>(n, k) \<in> set rest. n = ?P k)"
      by (simp only: w i(3) snd_conv)
    then have 1: "?S (requests st)" by (simp only: b)
    have "int (length (requests (snd (while_loop ext self task n_samples ?st0)))) \<le>
            max 0 (loc_n_retries ?st0)"
      using i(1) by (rule while_loop_requests_bound)
    then have "int (length (requests st)) \<le> max 0 r" by (simp only: w i(4) snd_conv)
    then have 2: "int (length (requests st)) \<le> max 0 ?R" by (simp only: r)
    have 3: "int (length (requests st)) = max 0 ?R"
      if "e = None" "int (length (valid_forecasts st)) < n_samples"
    proof -
      from w that(1) have "while_loop ext self task n_samples ?st0 = (None, st)" by simp
      from while_loop_requests_exact [OF i(1) this that(2)]
      have "int (length (requests st)) = max 0 r" by (simp only: i(4))
      then show ?thesis by (simp only: r)
    qed
    from 1 2 3 show ?thesis by blast
  qed
  have main: "?S (sent ?C) \<and> int (length (sent ?C)) \<le> max 0 ?R \<and>
        (\<forall>n k. returned ?C = Inl (RuntimeError n k) \<longrightarrow> int (length (sent ?C)) = max 0 ?R) \<and>
        (\<forall>samples info. returned ?C = Inr (samples, info) \<and> int (length samples) < n_samples
           \<longrightarrow> int (length (sent ?C)) = max 0 ?R)"
  proof (cases rule: call_cases [where ext = ext and self = self and task = task
      and n = n_samples and cs = cs])
    case Assert
    have "sent ?C = []" "returned ?C = Inl AssertionError" by (simp_all add: Assert(2))
    with nil show ?thesis by simp
  next
    case Zero
    have "sent ?C = []" "returned ?C = Inl ZeroDivisionError" by (simp_all add: Zero(2))
    with nil show ?thesis by simp
  next
    case (Backend b r st)
    have "sent ?C = requests st" "returned ?C = Inl BackendError"
      by (simp_all add: Backend(4))
    with looped [OF Backend(2,3)] show ?thesis by simp
  next
    case (Finish b r st)
    note l = looped [OF Finish(2,3)]
    have s: "sent ?C = requests st" by (simp add: Finish(4) finish_log)
    have a: "int (length (sent ?C)) = max 0 ?R" if "returned ?C = Inl (RuntimeError n k)" for n k
    proof -
      from that have "int (length (valid_forecasts st)) < n_samples"
        by (simp add: Finish(4) finish_runtime_error)
      with l s show ?thesis by simp
    qed
    have b: "int (length (sent ?C)) = max 0 ?R"
      if "returned ?C = Inr (samples, info)" "int (length samples) < n_samples"
      for samples info
    proof -
      from that(1) have "returned (finish ext self n_samples st) = Inr (samples, info)"
        by (simp add: Finish(4))
      from finish_returned(3) [OF this] that(2)
      have "int (length (valid_forecasts st)) < n_samples" by simp
      with l s show ?thesis by simp
    qed
    from l s a b show ?thesis by (simp only:) blast
  qed
  then obtain rest where
    "sent ?C = [] \<or> sent ?C = (?B, 0) # rest"
    "\<forall>(n, k) \<in> set rest. n = ?P k"
    by auto
  moreover have "\<forall>b r. first_batch self task n_samples = Inr (b, r) \<longrightarrow> r = ?R"
    using fbv by blast
  ultimately show ?thesis
    using main by (intro exI [of _ ?d] exI [of _ ?R] exI [of _ rest] conjI refl) blast+
qed

text \<open>
  Under a cap of 2, three samples are collected in three requests. Without a cap
  and with a \<^verbatim>\<open>batch_size\<close> of 4, the first request asks for 4 and the second for
  \<^verbatim>\<open>batch_size_on_retry\<close>; the call then fails for lack of samples after as many
  requests as the budget allows.
\<close>

theorem batch_size_policy_witness:
  "sent (call exact_externals example_engine capped_task 3 capped_script) =
     [(2, 0), (2, 1), (1, 2)] \<and>
   batch_size example_engine = None \<and>
   max_crazycast_batch_size capped_task = Some 2 \<and>
   batch_size_on_retry example_engine = 1 \<and>
   first_batch example_engine capped_task 3 = Inr (2, 3) \<and>
   sent (call exact_externals (example_engine\<lparr>batch_size := Some 4\<rparr>) example_task 5
           example_script) = [(4, 0), (1, 0)] \<and>
   returned (call exact_externals (example_engine\<lparr>batch_size := Some 4\<rparr>) example_task 5
           example_script) = Inl (RuntimeError 5 1) \<and>
   n_retries (example_engine\<lparr>batch_size := Some 4\<rparr>) = 2"
proof -
  let ?c = "call exact_externals example_engine capped_task 3 capped_script"
  let ?e4 = "example_engine\<lparr>batch_size := Some 4\<rparr>"
  let ?c4 = "call exact_externals ?e4 example_task 5 example_script"
  have f: "first_batch example_engine capped_task 3 = Inr (2, 3)" by code_simp
  have s: "sent ?c = [(2, 0), (2, 1), (1, 2)]" by code_simp
  have r4: "returned ?c4 = Inl (RuntimeError 5 1)" by code_simp
  have d: "batch_size example_engine = None"
    "max_crazycast_batch_size capped_task = Some 2"
    "batch_size_on_retry example_engine = 1" "n_retries example_engine = 2"
    by (simp_all add: example_engine_def capped_task_def)
  have d4: "batch_size ?e4 = Some 4" "max_crazycast_batch_size example_task = None"
    "batch_size_on_retry ?e4 = 1" "n_retries ?e4 = 2"
    by (simp_all add: example_engine_def example_task_def)
  from batch_size_policy [where ext = exact_externals and self = example_engine
      and task = capped_task and n_samples = 3 and cs = capped_script]
  obtain rest where
    "sent ?c = [] \<or> sent ?c = (min 3 2, 0) # rest"
    "\<forall>(n, k) \<in> set rest. n = min (max (3 - int k) 1) 2"
    "int (length (sent ?c)) \<le> max 0 (2 + 3 div min 3 2)"
    by (auto simp: d)
  moreover
  from batch_size_policy [where ext = exact_externals and self = ?e4
      and task = example_task and n_samples = 5 and cs = example_script]
  obtain rest4 where
    "sent ?c4 = [] \<or> sent ?c4 = (4, 0) # rest4"
    "\<forall>(n, k) \<in> set rest4. n = 1"
    "int (length (sent ?c4)) = 2"
    using r4 by (auto simp: d4)
  moreover have "sent ?c4 = [(4, 0), (1, 0)]" by code_simp
  ultimately show ?thesis using s d d4 f r4 by simp
qed

lemma asserts_hold_iff:
  "asserts_hold self n \<longleftrightarrow>
     \<not> ((\<exists>b. batch_size self = Some b \<and> b \<noteq> 0 \<and> b * n_retries self < n) \<or>
        (case batch_size self of
           None \<Rightarrow> n
         | Some b \<Rightarrow> if b = 0 then n else b) < batch_size_on_retry self)"
  by (auto simp: asserts_hold_def enough_iterations_def retry_batch_fits_def
        default_batch_size_def split: option.splits)

lemma finish_not_assertion: "returned (finish ext self n st) \<noteq> Inl AssertionError"
  by (auto simp: finish_def Let_def stack_samples_def split: option.splits)

lemma call_assertion_iff:
  "returned (call ext self task n cs) = Inl AssertionError \<longleftrightarrow> \<not> asserts_hold self n"
  by (cases rule: call_cases [where ext = ext and self = self and task = task
      and n = n and cs = cs]) (simp_all add: finish_not_assertion)

text \<open>
  Claim C3, as amended. A call raises \<^verbatim>\<open>AssertionError\<close> exactly when \<^verbatim>\<open>batch_size\<close>
  is a number other than 0 with \<^verbatim>\<open>batch_size * n_retries < n_samples\<close>, or
  \<^verbatim>\<open>batch_size_on_retry\<close> exceeds the default batch size, which is \<^verbatim>\<open>batch_size\<close>
  when that is a number other than 0 and \<^verbatim>\<open>n_samples\<close> otherwise: a \<^verbatim>\<open>batch_size\<close>
  of 0 counts as \<^verbatim>\<open>None\<close> does. A call that raises it has made no request: the
  client is in the state it was in, and the engine is unchanged. With
  \<^verbatim>\<open>n_samples = 5\<close> and \<^verbatim>\<open>batch_size = 2\<close>, three retries pass the check of line 319
  (and the call raises no \<^verbatim>\<open>AssertionError\<close> when \<^verbatim>\<open>batch_size_on_retry\<close> is at most
  2), while two retries fail it.
\<close>

theorem configuration_checks:
  "(returned (call ext self task n_samples cs) = Inl AssertionError \<longleftrightarrow>
      (\<exists>b. batch_size self = Some b \<and> b \<noteq> 0 \<and> b * n_retries self < n_samples) \<or>
      (case batch_size self of
         None \<Rightarrow> n_samples
       | Some b \<Rightarrow> if b = 0 then n_samples else b) < batch_size_on_retry self) \<and>
   (returned (call ext self task n_samples cs) = Inl AssertionError \<longrightarrow>
      sent (call ext self task n_samples cs) = [] \<and>
      received (call ext self task n_samples cs) = [] \<and>
      backend (call ext self task n_samples cs) = cs \<and>
      engine (call ext self task n_samples cs) = self) \<and>
   (batch_size self = Some 2 \<and> n_retries self = 3 \<longrightarrow>
      enough_iterations self 5 \<and>
      (batch_size_on_retry self \<le> 2 \<longrightarrow>
         returned (call ext self task 5 cs) \<noteq> Inl AssertionError)) \<and>
   (batch_size self = Some 2 \<and> n_retries self = 2 \<longrightarrow>
      \<not> enough_iterations self 5 \<and>
      returned (call ext self task 5 cs) = Inl AssertionError \<and>
      sent (call ext self task 5 cs) = [])"
proof (intro conjI impI)
  show "returned (call ext self task n_samples cs) = Inl AssertionError \<longleftrightarrow>
      (\<exists>b. batch_size self = Some b \<and> b \<noteq> 0 \<and> b * n_retries self < n_samples) \<or>
      (case batch_size self of
         None \<Rightarrow> n_samples
       | Some b \<Rightarrow> if b = 0 then n_samples else b) < batch_size_on_retry self"
    by (simp only: call_assertion_iff asserts_hold_iff not_not)
next
  assume "returned (call ext self task n_samples cs) = Inl AssertionError"
  then have "\<not> asserts_hold self n_samples" by (simp add: call_assertion_iff)
  then have c: "call ext self task n_samples cs =
       \<lparr>returned = Inl AssertionError, engine = self, backend = cs, sent = [], received = []\<rparr>"
    by (simp add: call_def)
  show "sent (call ext self task n_samples cs) = []"
    "received (call ext self task n_samples cs) = []"
    "backend (call ext self task n_samples cs) = cs"
    "engine (call ext self task n_samples cs) = self"
    by (simp_all add: c)
next
  assume "batch_size self = Some 2 \<and> n_retries self = 3"
  then show "enough_iterations self 5"
    by (simp add: enough_iterations_def)
next
  assume "batch_size self = Some 2 \<and> n_retries self = 3" "batch_size_on_retry self \<le> 2"
  then have "asserts_hold self 5"
    by (simp add: asserts_hold_def enough_iterations_def retry_batch_fits_def
          default_batch_size_def)
  then show "returned (call ext self task 5 cs) \<noteq> Inl AssertionError"
    by (simp add: call_assertion_iff)
next
  assume a: "batch_size self = Some 2 \<and> n_retries self = 2"
  then show n: "\<not> enough_iterations self 5"
    by (simp add: enough_iterations_def)
  then have "\<not> asserts_hold self 5"
    by (simp add: asserts_hold_def)
  then have c: "call ext self task 5 cs =
       \<lparr>returned = Inl AssertionError, engine = self, backend = cs, sent = [], received = []\<rparr>"
    by (simp add: call_def)
  show "returned (call ext self task 5 cs) = Inl AssertionError"
    "sent (call ext self task 5 cs) = []"
    by (simp_all add: c)
qed

text \<open>
  Two retries with batches of 2 do not cover 5 samples, three do; a
  \<^verbatim>\<open>batch_size_on_retry\<close> of 3 exceeds a \<^verbatim>\<open>batch_size\<close> of 2, and one of 2 exceeds
  the single sample asked for when \<^verbatim>\<open>batch_size\<close> is \<^verbatim>\<open>None\<close>.
\<close>

theorem configuration_checks_witness:
  "returned (call exact_externals (example_engine\<lparr>batch_size := Some 2\<rparr>)
               example_task 5 example_script) = Inl AssertionError \<and>
   backend (call exact_externals (example_engine\<lparr>batch_size := Some 2\<rparr>)
               example_task 5 example_script) = example_script \<and>
   enough_iterations (example_engine\<lparr>batch_size := Some 2, n_retries := 3\<rparr>) 5 \<and>
   returned (call exact_externals (example_engine\<lparr>batch_size := Some 2, n_retries := 3\<rparr>)
               example_task 5 example_script) \<noteq> Inl AssertionError \<and>
   returned (call exact_externals
               (example_engine\<lparr>batch_size := Some 2, n_retries := 3, batch_size_on_retry := 3\<rparr>)
               example_task 5 example_script) = Inl AssertionError \<and>
   returned (call exact_externals (example_engine\<lparr>batch_size_on_retry := 2\<rparr>)
               example_task 1 example_script) = Inl AssertionError"
proof -
  let ?e2 = "example_engine\<lparr>batch_size := Some 2\<rparr>"
  let ?e3 = "example_engine\<lparr>batch_size := Some 2, n_retries := 3\<rparr>"
  let ?e5 = "example_engine\<lparr>batch_size := Some 2, n_retries := 3, batch_size_on_retry := 3\<rparr>"
  let ?e4 = "example_engine\<lparr>batch_size_on_retry := 2\<rparr>"
  have 2: "batch_size ?e2 = Some 2 \<and> n_retries ?e2 = 2"
    by (simp add: example_engine_def)
  have 3: "batch_size ?e3 = Some 2 \<and> n_retries ?e3 = 3" "batch_size_on_retry ?e3 \<le> 2"
    by (simp_all add: example_engine_def)
  have 4: "(case batch_size ?e4 of None \<Rightarrow> 1 | Some b \<Rightarrow> if b = 0 then 1 else b)
             < batch_size_on_retry ?e4"
    by (simp add: example_engine_def)
  have 5: "(case batch_size ?e5 of None \<Rightarrow> 5 | Some b \<Rightarrow> if b = 0 then 5 else b)
             < batch_size_on_retry ?e5"
    by (simp add: example_engine_def)
  note c = configuration_checks [where ext = exact_externals and task = example_task
      and cs = example_script]
  have "returned (call exact_externals ?e2 example_task 5 example_script) = Inl AssertionError"
    using c [where self = ?e2 and n_samples = 5] 2 by blast
  moreover from this
  have "backend (call exact_externals ?e2 example_task 5 example_script) = example_script"
    using c [where self = ?e2 and n_samples = 5] by blast
  moreover
  have "enough_iterations ?e3 5"
    using c [where self = ?e3 and n_samples = 5] 3 by blast
  moreover
  have "returned (call exact_externals ?e3 example_task 5 example_script) \<noteq> Inl AssertionError"
    using c [where self = ?e3 and n_samples = 5] 3 by blast
  moreover
  have "returned (call exact_externals ?e5 example_task 5 example_script) = Inl AssertionError"
    using c [where self = ?e5 and n_samples = 5] 5 by blast
  moreover
  have "returned (call exact_externals ?e4 example_task 1 example_script) = Inl AssertionError"
    using c [where self = ?e4 and n_samples = 1] 4 by blast
  ultimately show ?thesis by blast
qed

text \<open>
  The claim as first stated asks for the error whenever \<^verbatim>\<open>batch_size\<close> is set and
  \<^verbatim>\<open>batch_size * n_retries < n_samples\<close>. With a \<^verbatim>\<open>batch_size\<close> of 0 the product is
  below every positive \<^verbatim>\<open>n_samples\<close>, and the call below raises nothing: it asks
  the client twice and returns.
\<close>

theorem zero_batch_size_passes:
  "batch_size (example_engine\<lparr>batch_size := Some 0\<rparr>) = Some 0 \<and>
   0 * n_retries (example_engine\<lparr>batch_size := Some 0\<rparr>) < 1 \<and>
   batch_size_on_retry (example_engine\<lparr>batch_size := Some 0\<rparr>) \<le> 1 \<and>
   sent (call exact_externals (example_engine\<lparr>batch_size := Some 0\<rparr>) example_task 1
           example_script) = [(1, 0), (1, 0)] \<and>
   returned (call exact_externals (example_engine\<lparr>batch_size := Some 0\<rparr>) example_task 1
               example_script) =
     Inr ([[[5]]],
          \<lparr>total_input_tokens = 200, total_output_tokens = 50,
           info_llm_outputs = [bad_choice, good_choice],
           input_token_cost = Some (5 / 2), output_token_cost = Some 10,
           total_token_cost = Some 1\<rparr>)"
  by code_simp

section \<open>A call that collects no valid forecast\<close>

text \<open>
  What holds of every call that returns: the array has at least one row and at most
  \<^verbatim>\<open>n_samples\<close> rows, exactly \<^verbatim>\<open>n_samples\<close> when \<^verbatim>\<open>fail_on_invalid\<close> is set, and
  each row holds one value for each target timestamp, each value in a cell of its
  own.
\<close>

lemma lookup_all_length: "lookup_all m ts = Inr ys \<Longrightarrow> length ys = length ts"
  by (induction ts arbitrary: ys) (auto split: option.splits sum.splits)

lemma parse_choice_length:
  "parse_choice ex pf ts content = Inr ys \<Longrightarrow> length ys = length ts"
  by (auto simp: parse_choice_def lookup_all_length split: list.splits sum.splits)

lemma fold_for_choice_lengths:
  assumes "\<forall>f \<in> set (fst acc). length f = length (future_time task)"
  shows "\<forall>f \<in> set (fst (fold (for_choice ext task) chs acc)).
           length f = length (future_time task)"
  using assms
proof (induction chs arbitrary: acc)
  case Nil
  then show ?case by simp
next
  case (Cons c chs)
  have "\<forall>f \<in> set (fst (for_choice ext task c acc)). length f = length (future_time task)"
    using Cons.prems by (auto simp: for_choice_def parse_choice_length split: sum.splits)
  then show ?case using Cons.IH by simp
qed

lemma set_slice_upto: "set (slice_upto n xs) \<subseteq> set xs"
  by (auto simp: slice_upto_def dest: in_set_takeD)

lemma while_loop_forecasts:
  fixes st :: "('f, 's) loop_state"
  assumes "valid_forecasts st = []"
  shows "(\<forall>f \<in> set (valid_forecasts (snd (while_loop ext self task n_samples st))).
            length f = length (future_time task)) \<and>
         int (length (valid_forecasts (snd (while_loop ext self task n_samples st)))) \<le>
           max 0 n_samples"
proof -
  let ?I = "\<lambda>s :: ('f, 's) loop_state.
              (\<forall>f \<in> set (valid_forecasts s). length f = length (future_time task)) \<and>
              int (length (valid_forecasts s)) \<le> max 0 n_samples"
  show ?thesis
  proof (rule while_loop_rule [where I = ?I])
    show "?I st" using assms by simp
  next
    fix s :: "('f, 's) loop_state" and resp :: response and cs
    assume I: "?I s" and g: "int (length (valid_forecasts s)) < n_samples"
    let ?asked = "s\<lparr>requests := requests s @ [(loc_batch_size s, length (valid_forecasts s))],
                     client_state := cs\<rparr>"
    let ?fs = "fst (fold (for_choice ext task) (choices resp)
                      (valid_forecasts ?asked, llm_outputs ?asked))"
    have "\<forall>f \<in> set ?fs. length f = length (future_time task)"
      using I by (intro fold_for_choice_lengths) simp
    then have "\<forall>f \<in> set (slice_upto n_samples ?fs). length f = length (future_time task)"
      using set_slice_upto [of n_samples ?fs] by blast
    moreover have "int (length (slice_upto n_samples ?fs)) \<le> max 0 n_samples"
      using g slice_upto_length [of n_samples ?fs] by simp
    ultimately show "?I (loop_round ext self task n_samples ?asked resp)"
      by (simp only: loop_round_forecasts)
  qed simp_all
qed

lemma call_rows:
  assumes "returned (call ext self task n_samples cs) = Inr (samples, info)"
  shows "0 < length samples \<and> int (length samples) \<le> n_samples \<and>
         (fail_on_invalid self \<longrightarrow> int (length samples) = n_samples) \<and>
         (\<forall>row \<in> set samples. length row = length (future_time task) \<and>
            (\<forall>cell \<in> set row. length cell = 1))"
proof (cases rule: call_cases [where ext = ext and self = self and task = task
      and n = n_samples and cs = cs])
  case (Finish b r st)
  from assms have f: "returned (finish ext self n_samples st) = Inr (samples, info)"
    by (simp add: Finish(4))
  note fr = finish_returned [OF f]
  have "valid_forecasts (initial_state b r cs :: ('a, 'b) loop_state) = []"
    by (simp add: initial_state_def)
  from while_loop_forecasts [OF this, of ext self task n_samples]
  have v: "\<forall>f \<in> set (valid_forecasts st). length f = length (future_time task)"
    and l: "int (length (valid_forecasts st)) \<le> max 0 n_samples"
    by (simp_all add: Finish(3))
  from fr(2) have p: "0 < length (valid_forecasts st)" by simp
  with l have le: "int (length (valid_forecasts st)) \<le> n_samples"
    by (cases "0 \<le> n_samples") (simp_all add: max_def)
  from fr(1) le have eq: "fail_on_invalid self \<longrightarrow> int (length (valid_forecasts st)) = n_samples"
    by auto
  from v have "\<forall>row \<in> set samples. length row = length (future_time task) \<and>
            (\<forall>cell \<in> set row. length cell = 1)"
    by (auto simp: fr(3))
  with p le eq show ?thesis by (simp add: fr(3))
qed (use assms in simp_all)

text \<open>
  Claim C1 at an input where the code departs from it. With \<^verbatim>\<open>fail_on_invalid\<close>
  unset and every candidate rejected, the call does not return an array without
  rows: \<^verbatim>\<open>np.array([])[:, :, None]\<close> raises \<^verbatim>\<open>IndexError\<close>.
\<close>

theorem zero_forecasts_raise:
  "fail_on_invalid (example_engine\<lparr>fail_on_invalid := False\<rparr>) = False \<and>
   returned (call exact_externals (example_engine\<lparr>fail_on_invalid := False\<rparr>)
               example_task 1 rejected_script) = Inl IndexError"
  by code_simp

section \<open>The cache key\<close>

lemma cache_name_explicit:
  "cache_name sf a =
     ''CrazyCast_model='' @ model a @
     ''_use_context='' @ str_bool (use_context a) @
     ''_fail_on_invalid='' @ str_bool (fail_on_invalid a) @
     ''_n_retries='' @ str_int (n_retries a) @
     (if startswith_gpt (model a) then [] else ''_temperature='' @ sf (temperature a))"
  by (simp add: cache_name_def args_to_include_def)


lemma nat_of_digits_str_nat: "nat_of_digits (str_nat n) = n"
proof (induction n rule: str_nat.induct)
  case (1 n)
  show ?case
  proof (cases "n < 10")
    case True
    then show ?thesis
      by (subst str_nat.simps) (simp add: nat_of_digits_def)
  next
    case False
    then have "nat_of_digits (str_nat (n div 10)) = n div 10" using "1.IH" by simp
    moreover have "(48 + n mod 10) mod 256 = 48 + n mod 10"
      by (rule mod_less) (simp add: less_le_trans [OF add_strict_left_mono [OF mod_less_divisor]])
    ultimately show ?thesis using False
      by (subst str_nat.simps) (simp add: nat_of_digits_def)
  qed
qed

lemma str_nat_inj: "str_nat m = str_nat n \<Longrightarrow> m = n"
  by (metis nat_of_digits_str_nat)

lemma str_nat_chars: "c \<in> set (str_nat n) \<Longrightarrow> 48 \<le> (of_char c :: nat) \<and> of_char c < (58 :: nat)"
proof (induction n rule: str_nat.induct)
  case (1 n)
  have d: "48 \<le> (of_char (char_of (48 + k :: nat)) :: nat) \<and>
           (of_char (char_of (48 + k :: nat)) :: nat) < 58" if "k < 10" for k
    using that by simp
  show ?case
  proof (cases "n < 10")
    case True
    with "1.prems" have "c = char_of (48 + n)" by (subst (asm) str_nat.simps) simp
    with d [OF True] show ?thesis by simp
  next
    case False
    with "1.prems" have "c \<in> set (str_nat (n div 10)) \<or> c = char_of (48 + n mod 10)"
      by (subst (asm) str_nat.simps) auto
    then show ?thesis
    proof
      assume "c \<in> set (str_nat (n div 10))"
      with "1.IH" False show ?thesis by simp
    next
      assume "c = char_of (48 + n mod 10)"
      with d [of "n mod 10"] show ?thesis by simp
    qed
  qed
qed

lemma str_nat_not_Nil: "str_nat n \<noteq> []"
  by (subst str_nat.simps) simp

lemma str_int_inj: "str_int i = str_int j \<Longrightarrow> i = j"
proof -
  assume e: "str_int i = str_int j"
  have neg: False if "str_nat m = CHR ''-'' # s" for m s
  proof -
    have "CHR ''-'' \<in> set (str_nat m)" by (simp add: that)
    from str_nat_chars [OF this] show False by simp
  qed
  show ?thesis
  proof (cases "i < 0"; cases "j < 0")
    assume "i < 0" "j < 0"
    with e have "nat (- i) = nat (- j)" by (simp add: str_int_def str_nat_inj)
    with \<open>i < 0\<close> \<open>j < 0\<close> show ?thesis by simp
  next
    assume "i < 0" "\<not> j < 0"
    with e have "str_nat (nat j) = CHR ''-'' # str_nat (nat (- i))" by (simp add: str_int_def)
    then show ?thesis using neg by blast
  next
    assume "\<not> i < 0" "j < 0"
    with e have "str_nat (nat i) = CHR ''-'' # str_nat (nat (- j))" by (simp add: str_int_def)
    then show ?thesis using neg by blast
  next
    assume "\<not> i < 0" "\<not> j < 0"
    with e have "nat i = nat j" by (simp add: str_int_def str_nat_inj)
    with \<open>\<not> i < 0\<close> \<open>\<not> j < 0\<close> show ?thesis by simp
  qed
qed

lemma str_int_no_underscore: "CHR ''_'' \<notin> set (str_int i)"
proof
  assume "CHR ''_'' \<in> set (str_int i)"
  then have "CHR ''_'' \<in> set (str_nat (nat (- i))) \<or> CHR ''_'' \<in> set (str_nat (nat i))"
    by (auto simp: str_int_def split: if_splits)
  then show False using str_nat_chars [of "CHR ''_''"] by auto
qed

lemma append_eq_same_count:
  assumes "a @ c # t1 = b @ c # t2"
    and "count_list (c # t1) c = count_list (c # t2) c"
  shows "a = b \<and> t1 = t2"
proof -
  from assms(1) obtain us where
    "(a = b @ us \<and> us @ c # t1 = c # t2) \<or> (a @ us = b \<and> c # t1 = us @ c # t2)"
    by (auto simp: append_eq_append_conv2)
  then show ?thesis
  proof
    assume h: "a = b @ us \<and> us @ c # t1 = c # t2"
    then have "count_list (c # t2) c = count_list us c + count_list (c # t1) c"
      by (metis count_list_append)
    with assms(2) have z: "count_list us c = 0" by simp
    have "us = []"
    proof (cases us)
      case (Cons u vs)
      with h have "u = c" by simp
      with Cons z show ?thesis by simp
    qed simp
    with h show ?thesis by simp
  next
    assume h: "a @ us = b \<and> c # t1 = us @ c # t2"
    then have "count_list (c # t1) c = count_list us c + count_list (c # t2) c"
      by (metis count_list_append)
    with assms(2) have z: "count_list us c = 0" by simp
    have "us = []"
    proof (cases us)
      case (Cons u vs)
      with h have "u = c" by simp
      with Cons z show ?thesis by simp
    qed simp
    with h show ?thesis by simp
  qed
qed

lemma count_list_0: "c \<notin> set xs \<Longrightarrow> count_list xs c = 0"
  by (induction xs) auto

lemma str_bool_no_underscore: "CHR ''_'' \<notin> set (str_bool b)"
  by (simp add: str_bool_def)

lemma str_bool_append_eq:
  "str_bool x @ r = str_bool y @ r' \<Longrightarrow> x = y \<and> r = r'"
  by (cases x; cases y) (simp_all add: str_bool_def)

lemma free_prefix_eq:
  assumes "u @ t = u' @ t'" and "c \<notin> set u" and "c \<notin> set u'"
    and "t = [] \<or> hd t = c" and "t' = [] \<or> hd t' = c"
  shows "u = u' \<and> t = t'"
proof -
  have tw: "takeWhile (\<lambda>x. x \<noteq> c) (v @ s) = v" if "c \<notin> set v" "s = [] \<or> hd s = c" for v s
  proof -
    have "takeWhile (\<lambda>x. x \<noteq> c) s = []" using that(2) by (cases s) auto
    with that(1) show ?thesis by (induction v) auto
  qed
  have "u = takeWhile (\<lambda>x. x \<noteq> c) (u @ t)" using assms(2,4) by (simp add: tw)
  also have "\<dots> = takeWhile (\<lambda>x. x \<noteq> c) (u' @ t')" by (simp add: assms(1))
  also have "\<dots> = u'" using assms(3,5) by (simp add: tw)
  finally have "u = u'" .
  with assms(1) show ?thesis by simp
qed

lemma gpt_prefix_clash:
  assumes "startswith_gpt m" and "\<not> startswith_gpt m'"
  shows "m @ CHR ''_'' # s \<noteq> m' @ CHR ''_'' # s'"
proof
  assume e: "m @ CHR ''_'' # s = m' @ CHR ''_'' # s'"
  from assms(1) have g: "take 3 m = ''gpt''" by (simp add: startswith_gpt_def)
  then have "length (take 3 m) = 3" by simp
  then have "3 \<le> length m" by simp
  with g have "take 3 (m @ CHR ''_'' # s) = ''gpt''" by simp
  with e have t: "take 3 (m' @ CHR ''_'' # s') = ''gpt''" by simp
  show False
  proof (cases m')
    case Nil
    with t show False by simp
  next
    case (Cons x xs)
    note c1 = this
    show False
    proof (cases xs)
      case Nil
      with t c1 show False by (simp add: numeral_3_eq_3)
    next
      case (Cons y ys)
      note c2 = this
      show False
      proof (cases ys)
        case Nil
        with t c1 c2 show False by (simp add: numeral_3_eq_3)
      next
        case (Cons z zs)
        with t c1 c2 have "take 3 m' = ''gpt''" by (simp add: numeral_3_eq_3)
        with assms(2) show False by (simp add: startswith_gpt_def)
      qed
    qed
  qed
qed

lemma cache_name_tail:
  "cache_name sf a = ''CrazyCast_model='' @ model a @ CHR ''_'' # key_tail sf a"
  by (simp add: cache_name_explicit key_tail_def)

lemma count_key_tail:
  assumes "\<And>x. CHR ''_'' \<notin> set (sf x)"
  shows "count_list (CHR ''_'' # key_tail sf a) CHR ''_'' =
           (if startswith_gpt (model a) then 7 else 8)"
  using assms
  by (simp add: key_tail_def count_list_append count_list_0 str_bool_no_underscore
        str_int_no_underscore)

lemma key_tail_inj:
  assumes "key_tail sf a = key_tail sf b"
    and "startswith_gpt (model a) \<longleftrightarrow> startswith_gpt (model b)"
    and "\<And>x. CHR ''_'' \<notin> set (sf x)" and "inj sf"
  shows "use_context a = use_context b \<and> fail_on_invalid a = fail_on_invalid b \<and>
         n_retries a = n_retries b \<and>
         (\<not> startswith_gpt (model a) \<longrightarrow> temperature a = temperature b)"
proof -
  let ?T = "\<lambda>a. if startswith_gpt (model a) then [] else ''_temperature='' @ sf (temperature a)"
  from assms(1) have
    "str_bool (use_context a) @
       (''_fail_on_invalid='' @ str_bool (fail_on_invalid a) @
        ''_n_retries='' @ str_int (n_retries a) @ ?T a) =
     str_bool (use_context b) @
       (''_fail_on_invalid='' @ str_bool (fail_on_invalid b) @
        ''_n_retries='' @ str_int (n_retries b) @ ?T b)"
    by (simp add: key_tail_def)
  from str_bool_append_eq [OF this] have u: "use_context a = use_context b"
    and "str_bool (fail_on_invalid a) @ (''_n_retries='' @ str_int (n_retries a) @ ?T a) =
         str_bool (fail_on_invalid b) @ (''_n_retries='' @ str_int (n_retries b) @ ?T b)"
    by simp_all
  from str_bool_append_eq [OF this(2)] have f: "fail_on_invalid a = fail_on_invalid b"
    and "str_int (n_retries a) @ ?T a = str_int (n_retries b) @ ?T b"
    by simp_all
  from this(2) have "str_int (n_retries a) = str_int (n_retries b) \<and> ?T a = ?T b"
    by (rule free_prefix_eq [where c = "CHR ''_''"])
       (simp_all add: str_int_no_underscore)
  then have n: "n_retries a = n_retries b" and t: "?T a = ?T b"
    by (simp_all add: str_int_inj)
  have "temperature a = temperature b" if "\<not> startswith_gpt (model a)"
  proof -
    from that assms(2) t have "sf (temperature a) = sf (temperature b)" by simp
    with assms(4) show ?thesis by (simp add: inj_eq)
  qed
  with u f n show ?thesis by simp
qed

text \<open>
  Claim C9, as amended. The cache key is the class name followed by the model name,
  the context flag, the invalid-handling flag and the retry count, and by the
  temperature exactly when the model name does not start with \<^verbatim>\<open>gpt\<close>, that is
  for every model but those of the OpenAI and Azure clients. Two engines have the
  same key exactly when they agree on these attributes; in particular
  \<^verbatim>\<open>batch_size_on_retry\<close> has no influence on the key. Of \<^verbatim>\<open>str\<close> on floats it is
  assumed that it maps different floats to different strings and never produces
  an underscore.
\<close>

theorem cache_name_key:
  assumes "inj str_float" and "\<forall>x. CHR ''_'' \<notin> set (str_float x)"
  shows "cache_name str_float a =
           ''CrazyCast_model='' @ model a @
           ''_use_context='' @ str_bool (use_context a) @
           ''_fail_on_invalid='' @ str_bool (fail_on_invalid a) @
           ''_n_retries='' @ str_int (n_retries a) @
           (if startswith_gpt (model a) then []
            else ''_temperature='' @ str_float (temperature a)) \<and>
         (cache_name str_float a = cache_name str_float b \<longleftrightarrow>
            model a = model b \<and> use_context a = use_context b \<and>
            fail_on_invalid a = fail_on_invalid b \<and> n_retries a = n_retries b \<and>
            (\<not> startswith_gpt (model a) \<longrightarrow> temperature a = temperature b)) \<and>
         cache_name str_float (a\<lparr>batch_size_on_retry := k\<rparr>) = cache_name str_float a \<and>
         (\<forall>kind. get_client openai_use_azure llm_map_keys (model a) = Inr kind \<longrightarrow>
            (startswith_gpt (model a) \<longleftrightarrow> kind = AzureOpenAI \<or> kind = OpenAI))"
proof (intro conjI)
  show "\<forall>kind. get_client openai_use_azure llm_map_keys (model a) = Inr kind \<longrightarrow>
            (startswith_gpt (model a) \<longleftrightarrow> kind = AzureOpenAI \<or> kind = OpenAI)"
    by (auto simp: get_client_def split: if_splits)
next
  show "cache_name str_float a =
           ''CrazyCast_model='' @ model a @
           ''_use_context='' @ str_bool (use_context a) @
           ''_fail_on_invalid='' @ str_bool (fail_on_invalid a) @
           ''_n_retries='' @ str_int (n_retries a) @
           (if startswith_gpt (model a) then []
            else ''_temperature='' @ str_float (temperature a))"
    by (rule cache_name_explicit)
next
  show "cache_name str_float (a\<lparr>batch_size_on_retry := k\<rparr>) = cache_name str_float a"
    by (simp add: cache_name_explicit)
next
  from assms(2) have nu: "\<And>x. CHR ''_'' \<notin> set (str_float x)" by simp
  show "cache_name str_float a = cache_name str_float b \<longleftrightarrow>
            model a = model b \<and> use_context a = use_context b \<and>
            fail_on_invalid a = fail_on_invalid b \<and> n_retries a = n_retries b \<and>
            (\<not> startswith_gpt (model a) \<longrightarrow> temperature a = temperature b)"
  proof
    assume "model a = model b \<and> use_context a = use_context b \<and>
            fail_on_invalid a = fail_on_invalid b \<and> n_retries a = n_retries b \<and>
            (\<not> startswith_gpt (model a) \<longrightarrow> temperature a = temperature b)"
    then show "cache_name str_float a = cache_name str_float b"
      by (simp add: cache_name_explicit)
  next
    assume "cache_name str_float a = cache_name str_float b"
    then have e: "model a @ CHR ''_'' # key_tail str_float a =
                  model b @ CHR ''_'' # key_tail str_float b"
      by (simp add: cache_name_tail)
    have g: "startswith_gpt (model a) \<longleftrightarrow> startswith_gpt (model b)"
      using e gpt_prefix_clash [of "model a" "model b"]
        gpt_prefix_clash [of "model b" "model a"]
      by metis
    then have "count_list (CHR ''_'' # key_tail str_float a) CHR ''_'' =
               count_list (CHR ''_'' # key_tail str_float b) CHR ''_''"
      by (simp only: count_key_tail [OF nu])
    with e have "model a = model b \<and> key_tail str_float a = key_tail str_float b"
      by (rule append_eq_same_count)
    moreover from this g nu assms(1)
    have "use_context a = use_context b \<and> fail_on_invalid a = fail_on_invalid b \<and>
         n_retries a = n_retries b \<and>
         (\<not> startswith_gpt (model a) \<longrightarrow> temperature a = temperature b)"
      by (intro key_tail_inj) simp_all
    ultimately show "model a = model b \<and> use_context a = use_context b \<and>
            fail_on_invalid a = fail_on_invalid b \<and> n_retries a = n_retries b \<and>
            (\<not> startswith_gpt (model a) \<longrightarrow> temperature a = temperature b)"
      by simp
  qed
qed

theorem cache_name_key_witness:
  "inj str_whole \<and>
   (\<forall>x. CHR ''_'' \<notin> set (str_whole x)) \<and>
   cache_name str_whole llama_engine =
     ''CrazyCast_model=llama-3.1-405b-instruct_use_context=True_fail_on_invalid=True_n_retries=3_temperature=1.0'' \<and>
   cache_name str_whole (llama_engine\<lparr>batch_size_on_retry := 2\<rparr>) =
     cache_name str_whole llama_engine \<and>
   cache_name str_whole (llama_engine\<lparr>n_retries := 4\<rparr>) \<noteq> cache_name str_whole llama_engine \<and>
   cache_name str_whole (llama_engine\<lparr>temperature := 0\<rparr>) \<noteq> cache_name str_whole llama_engine \<and>
   cache_name str_whole (llama_engine\<lparr>model := ''gpt-4o'', temperature := 0\<rparr>) =
     cache_name str_whole (llama_engine\<lparr>model := ''gpt-4o''\<rparr>)"
proof -
  have i: "inj str_whole"
    by (rule injI) (simp add: str_whole_def str_int_inj)
  have u: "\<forall>x. CHR ''_'' \<notin> set (str_whole x)"
    by (simp add: str_whole_def str_int_no_underscore)
  note k = cache_name_key [OF i u]
  note same = k [THEN conjunct2, THEN conjunct1]
  have v: "cache_name str_whole llama_engine =
     ''CrazyCast_model=llama-3.1-405b-instruct_use_context=True_fail_on_invalid=True_n_retries=3_temperature=1.0''"
    by code_simp
  have 1: "cache_name str_whole (llama_engine\<lparr>batch_size_on_retry := 2\<rparr>) =
     cache_name str_whole llama_engine"
    using k [of llama_engine] by blast
  have 2: "cache_name str_whole (llama_engine\<lparr>n_retries := 4\<rparr>) \<noteq>
           cache_name str_whole llama_engine"
    using same [of "llama_engine\<lparr>n_retries := 4\<rparr>" llama_engine]
    by (simp add: llama_engine_def)
  have 3: "cache_name str_whole (llama_engine\<lparr>temperature := 0\<rparr>) \<noteq>
           cache_name str_whole llama_engine"
    using same [of "llama_engine\<lparr>temperature := 0\<rparr>" llama_engine]
    by (simp add: llama_engine_def startswith_gpt_def)
  have 4: "cache_name str_whole (llama_engine\<lparr>model := ''gpt-4o'', temperature := 0\<rparr>) =
     cache_name str_whole (llama_engine\<lparr>model := ''gpt-4o''\<rparr>)"
    using same [of "llama_engine\<lparr>model := ''gpt-4o'', temperature := 0\<rparr>"
               "llama_engine\<lparr>model := ''gpt-4o''\<rparr>"]
    by (simp add: llama_engine_def startswith_gpt_def)
  from i u v 1 2 3 4 show ?thesis by blast
qed

text \<open>
  The claim as first stated includes the temperature for the models that are not
  hosted only. The model below is served by the client for the hosted Llama model,
  and its key ends with the temperature.
\<close>

theorem hosted_llama_key_has_temperature:
  "get_client False [] (model llama_engine) = Inr Llama405bToolkit \<and>
   hosted Llama405bToolkit \<and>
   cache_name str_whole llama_engine =
     ''CrazyCast_model=llama-3.1-405b-instruct_use_context=True_fail_on_invalid=True_n_retries=3_temperature=1.0''"
  by code_simp

section \<open>The history of the prompt\<close>

lemma history_spec_cases:
  "history_spec d (Finite r) = (if r < 10 ^ d then General d else Fixed 0)"
  "history_spec d PosInf = Fixed 0"
  "history_spec d NegInf = General d"
  "history_spec d NaN = Fixed 0"
  by (simp_all add: history_spec_def float_lt_int_def)

text \<open>
  Claim C8 at an input where the code departs from it. The comparison of line 246
  is made on the value and not on its magnitude: a negative value whose magnitude
  has reached \<^verbatim>\<open>10 ** max_digits\<close> is still formatted with \<^verbatim>\<open>.{max_digits}g\<close>, while
  the positive value of the line before it is formatted with \<^verbatim>\<open>.0f\<close>.
\<close>

theorem negative_history_value_general:
  "magnitude (Finite (- 10000000)) = Some 10000000 \<and>
   (10 :: real) ^ 6 \<le> 10000000 \<and>
   history_spec 6 (Finite (- 10000000)) = General 6 \<and>
   history_spec 6 (Finite 2000000) = Fixed 0 \<and>
   history format_tag 6 history_task =
     ''(2023-12-30 00:00:00, g)\<newline>(2023-12-31 00:00:00, f)\<newline>(2024-01-01 00:00:00, g)''"
  by (simp add: magnitude_def history_spec_def float_lt_int_def history_def history_entry_def
        history_task_def format_tag_def)

end
